theory Spec2Isabelle
  imports Complex_Main "HOL-Library.Word"
begin

section \<open>Flight-log GPS parser: \<open>smart_gps_parser_v2.py\<close>\<close>

text \<open>
  A shallow embedding of class \<open>SmartGPSParserV2\<close>. The mutable attributes of the
  parser object are the fields of the record \<open>session\<close>; every method that assigns to
  \<open>self\<close> takes the session and returns the updated one. Console output and the
  \<open>type_stats\<close> table (used for printing only) are left out.

  Python floats are modelled by \<open>pyfloat\<close>: a finite value carries the real number it
  denotes, and the two infinities and NaN are values of their own, so that comparisons
  behave as in IEEE 754 (every comparison with NaN is false). Arithmetic on finite
  values is exact real arithmetic: rounding is not modelled.
\<close>

subsection \<open>Bytes and \<open>struct.unpack\<close>\<close>

type_synonym byte = "8 word"

datatype pyfloat = Finite real | PosInf | NegInf | NaN

text \<open>\<open>a <= b\<close> and \<open>a < b\<close> on floats.\<close>

fun fl_le :: "pyfloat \<Rightarrow> pyfloat \<Rightarrow> bool" where
  "fl_le NaN _ = False"
| "fl_le _ NaN = False"
| "fl_le NegInf _ = True"
| "fl_le _ PosInf = True"
| "fl_le (Finite a) (Finite b) = (a \<le> b)"
| "fl_le _ _ = False"

fun fl_lt :: "pyfloat \<Rightarrow> pyfloat \<Rightarrow> bool" where
  "fl_lt NaN _ = False"
| "fl_lt _ NaN = False"
| "fl_lt (Finite a) (Finite b) = (a < b)"
| "fl_lt NegInf NegInf = False"
| "fl_lt NegInf _ = True"
| "fl_lt PosInf _ = False"
| "fl_lt (Finite a) PosInf = True"
| "fl_lt (Finite a) NegInf = False"

fun fl_abs :: "pyfloat \<Rightarrow> pyfloat" where
  "fl_abs (Finite a) = Finite \<bar>a\<bar>"
| "fl_abs PosInf = PosInf"
| "fl_abs NegInf = PosInf"
| "fl_abs NaN = NaN"

fun fl_add :: "pyfloat \<Rightarrow> pyfloat \<Rightarrow> pyfloat" where
  "fl_add NaN _ = NaN"
| "fl_add _ NaN = NaN"
| "fl_add (Finite a) (Finite b) = Finite (a + b)"
| "fl_add PosInf NegInf = NaN"
| "fl_add NegInf PosInf = NaN"
| "fl_add PosInf _ = PosInf"
| "fl_add _ PosInf = PosInf"
| "fl_add NegInf _ = NegInf"
| "fl_add _ NegInf = NegInf"

text \<open>\<open>x / 2\<close>.\<close>

fun fl_half :: "pyfloat \<Rightarrow> pyfloat" where
  "fl_half (Finite a) = Finite (a / 2)"
| "fl_half x = x"

text \<open>The real number of a finite float; used only on values that passed a range check.\<close>

fun fl_val :: "pyfloat \<Rightarrow> real" where
  "fl_val (Finite a) = a"

text \<open>
  \<open>record[a:b]\<close> for \<open>0 \<le> a \<le> b\<close>: Python slices are cut at the end of the sequence.
\<close>

definition py_slice :: "'a list \<Rightarrow> nat \<Rightarrow> nat \<Rightarrow> 'a list" where
  "py_slice xs a b = take (b - a) (drop a xs)"

text \<open>
  \<open>struct.unpack('<I', bs)[0]\<close>: the little-endian unsigned 32-bit integer; \<open>None\<close>
  stands for \<open>struct.error\<close>, raised when \<open>bs\<close> is not exactly four bytes long.
\<close>

fun unpack_I :: "byte list \<Rightarrow> nat option" where
  "unpack_I [b0, b1, b2, b3] =
     Some (unat b0 + 256 * unat b1 + 65536 * unat b2 + 16777216 * unat b3)"
| "unpack_I _ = None"

text \<open>
  The value of an IEEE 754 binary32 bit pattern \<open>n\<close>: sign bit, 8 exponent bits, 23
  fraction bits. A normal number is \<open>(2^23 + m) * 2^(e - 150)\<close>, a subnormal one
  \<open>m * 2^(-149)\<close>. The conversion of a binary32 to a Python float is exact.
\<close>

definition f32_value :: "nat \<Rightarrow> pyfloat" where
  "f32_value n =
     (let s = n div 2 ^ 31; e = (n div 2 ^ 23) mod 256; m = n mod 2 ^ 23;
          sg = (if s = 1 then - 1 else 1)
      in if e = 255 then (if m = 0 then (if s = 1 then NegInf else PosInf) else NaN)
         else if e = 0 then Finite (sg * real m / 2 ^ 149)
         else Finite (sg * real (2 ^ 23 + m) * 2 ^ e / 2 ^ 150))"

text \<open>\<open>struct.unpack('<f', bs)[0]\<close>.\<close>

definition unpack_f :: "byte list \<Rightarrow> pyfloat option" where
  "unpack_f bs = map_option f32_value (unpack_I bs)"

text \<open>\<open>bytes.hex()\<close>: two lower-case hexadecimal digits per byte.\<close>

definition hex_digit :: "nat \<Rightarrow> char" where
  "hex_digit d = ''0123456789abcdef'' ! d"

definition hex :: "byte list \<Rightarrow> string" where
  "hex bs = concat (map (\<lambda>b. [hex_digit (unat b div 16), hex_digit (unat b mod 16)]) bs)"

subsection \<open>Session state\<close>

text \<open>
  The dictionaries appended to \<open>gps_all\<close>. A key that a dictionary does not have is
  \<open>None\<close>: \<open>counter\<close> for a discovered point, \<open>record_pos\<close> for a known one. The
  altitude of a discovered point may also be present with the value \<open>None\<close>; both cases
  read as \<open>None\<close> through \<open>.get('altitude')\<close>.
\<close>

record gps_point =
  source :: string
  type_hex :: string
  counter :: "nat option"
  latitude :: real
  longitude :: real
  altitude :: "pyfloat option"
  record_offset :: nat
  record_pos :: "nat option"

record relative_point =
  rel_source :: string
  rel_type_hex :: string
  rel_counter :: nat
  rel_x :: pyfloat
  rel_y :: pyfloat
  rel_z :: pyfloat
  rel_record_offset :: nat

record telemetry_sample =
  tel_counter :: nat
  param1 :: pyfloat
  param2 :: pyfloat
  param3 :: pyfloat

datatype known_entry = KnownAbsolute gps_point | KnownRelative relative_point

record session =
  gps_known :: "known_entry list"
  gps_discovered :: "gps_point list"
  gps_all :: "gps_point list"
  telemetry :: "telemetry_sample list"
  coord_history :: "(real \<times> real) list"
  region_center :: "(real \<times> real) option"

text \<open>The state \<open>__init__\<close> leaves behind.\<close>

definition init_session :: session where
  "init_session =
     \<lparr>gps_known = [], gps_discovered = [], gps_all = [], telemetry = [],
      coord_history = [], region_center = None\<rparr>"

subsection \<open>Validity, distance, coherence, region\<close>

definition is_valid_coordinate :: "pyfloat option \<Rightarrow> pyfloat option \<Rightarrow> bool" where
  "is_valid_coordinate lat lon =
     (case (lat, lon) of
        (Some la, Some lo) \<Rightarrow>
          if \<not> (fl_le (Finite (- 90)) la \<and> fl_le la (Finite 90)) then False
          else if \<not> (fl_le (Finite (- 180)) lo \<and> fl_le lo (Finite 180)) then False
          else if fl_lt (fl_abs la) (Finite (1 / 100)) \<and> fl_lt (fl_abs lo) (Finite (1 / 100))
          then False
          else True
      | _ \<Rightarrow> False)"

text \<open>
  \<open>math.radians\<close> and \<open>math.atan2\<close> on real numbers. \<open>calculate_distance\<close> is called on
  coordinates that passed \<open>is_valid_coordinate\<close> or on averages of such, so its arguments
  are finite; it is computed here in exact real arithmetic. For latitudes between -90 and
  90 the term \<open>a\<close> lies between 0 and 1 (lemma \<open>haversine_term_bounds\<close> below), so both
  square roots are those of non-negative numbers, where \<open>math.sqrt\<close> does not raise.
\<close>

definition radians :: "real \<Rightarrow> real" where
  "radians x = x * pi / 180"

definition atan2 :: "real \<Rightarrow> real \<Rightarrow> real" where
  "atan2 y x =
     (if 0 < x then arctan (y / x)
      else if x < 0 then (if 0 \<le> y then arctan (y / x) + pi else arctan (y / x) - pi)
      else if 0 < y then pi / 2
      else if y < 0 then - pi / 2
      else 0)"

definition calculate_distance :: "real \<Rightarrow> real \<Rightarrow> real \<Rightarrow> real \<Rightarrow> real" where
  "calculate_distance lat1 lon1 lat2 lon2 =
     (let R = 6371;
          lat1_rad = radians lat1;
          lat2_rad = radians lat2;
          delta_lat = radians (lat2 - lat1);
          delta_lon = radians (lon2 - lon1);
          a = (sin (delta_lat / 2)) ^ 2 + cos lat1_rad * cos lat2_rad * (sin (delta_lon / 2)) ^ 2;
          c = 2 * atan2 (sqrt a) (sqrt (1 - a))
      in R * c)"

text \<open>The builtin \<open>min(a, b)\<close> of two floats: \<open>b\<close> when \<open>b < a\<close>, else \<open>a\<close>.\<close>

definition py_min :: "pyfloat \<Rightarrow> pyfloat \<Rightarrow> pyfloat" where
  "py_min a b = (if fl_lt b a then b else a)"

text \<open>\<open>xs[-10:]\<close>.\<close>

definition last10 :: "'a list \<Rightarrow> 'a list" where
  "last10 xs = drop (length xs - 10) xs"

definition is_geographically_coherent :: "session \<Rightarrow> real \<Rightarrow> real \<Rightarrow> real \<Rightarrow> bool" where
  "is_geographically_coherent s lat lon max_jump_km =
     (if coord_history s = [] then True
      else
        let recent_coords = last10 (coord_history s);
            min_distance =
              fold (\<lambda>(hist_lat, hist_lon) min_distance.
                      py_min min_distance (Finite (calculate_distance lat lon hist_lat hist_lon)))
                   recent_coords PosInf
        in fl_lt min_distance (Finite max_jump_km))"

definition is_in_reasonable_region :: "session \<Rightarrow> real \<Rightarrow> real \<Rightarrow> bool" where
  "is_in_reasonable_region s lat lon =
     (case region_center s of
        None \<Rightarrow> True
      | Some (center_lat, center_lon) \<Rightarrow>
          calculate_distance lat lon center_lat center_lon < 200)"

definition update_region_center :: "session \<Rightarrow> session" where
  "update_region_center s =
     (if coord_history s = [] then s
      else
        let lats = map fst (coord_history s);
            lons = map snd (coord_history s);
            lats_sorted = sort lats;
            lons_sorted = sort lons;
            median_lat = lats_sorted ! (length lats_sorted div 2);
            median_lon = lons_sorted ! (length lons_sorted div 2)
        in s\<lparr>region_center := Some (median_lat, median_lon)\<rparr>)"

subsection \<open>Heuristic locator\<close>

text \<open>The dictionaries \<open>find_gps_in_record\<close> collects.\<close>

record candidate =
  cand_offset :: nat
  cand_latitude :: real
  cand_longitude :: real
  cand_altitude :: "pyfloat option"

text \<open>
  The chain of \<open>continue\<close> statements in the body of the offset loop: a decoded pair is
  kept when none of them fires.
\<close>

definition passes_filters :: "session \<Rightarrow> pyfloat \<Rightarrow> pyfloat \<Rightarrow> bool" where
  "passes_filters s lat lon =
     (if \<not> is_valid_coordinate (Some lat) (Some lon) then False
      else if fl_lt (fl_abs lat) (Finite 1) \<and> fl_lt (fl_abs lon) (Finite 1) then False
      else if \<not> is_geographically_coherent s (fl_val lat) (fl_val lon) 50 then False
      else if length (coord_history s) > 10
                \<and> \<not> is_in_reasonable_region s (fl_val lat) (fl_val lon) then False
      else True)"

text \<open>One iteration of the offset loop: \<open>None\<close> when the iteration appends nothing.\<close>

definition candidate_at :: "session \<Rightarrow> byte list \<Rightarrow> nat \<Rightarrow> candidate option" where
  "candidate_at s record offset =
     (case unpack_f (py_slice record offset (offset + 4)) of
        None \<Rightarrow> None
      | Some lat \<Rightarrow>
          (case unpack_f (py_slice record (offset + 4) (offset + 8)) of
             None \<Rightarrow> None
           | Some lon \<Rightarrow>
               if \<not> passes_filters s lat lon then None
               else
                 let alt =
                       (if offset + 12 \<le> length record then
                          (case unpack_f (py_slice record (offset + 8) (offset + 12)) of
                             None \<Rightarrow> None
                           | Some alt_candidate \<Rightarrow>
                               if fl_lt (Finite (- 500)) alt_candidate
                                    \<and> fl_lt alt_candidate (Finite 10000)
                               then Some alt_candidate else None)
                        else None)
                 in Some \<lparr>cand_offset = offset, cand_latitude = fl_val lat,
                           cand_longitude = fl_val lon, cand_altitude = alt\<rparr>))"

definition find_gps_in_record :: "session \<Rightarrow> byte list \<Rightarrow> candidate list" where
  "find_gps_in_record s record =
     (if length record < 12 then []
      else List.map_filter (candidate_at s record) [4 ..< min (length record - 8) 80])"

subsection \<open>Known-schema and telemetry decoders\<close>

definition parse_known_gps_absolute :: "byte list \<Rightarrow> gps_point option" where
  "parse_known_gps_absolute record =
     (if length record < 36 then None
      else if \<not> (record ! 1 = 0x23 \<and> record ! 2 = 0x52) then None
      else
        (case (unpack_I (py_slice record 4 8), unpack_f (py_slice record 24 28),
               unpack_f (py_slice record 28 32), unpack_f (py_slice record 32 36)) of
           (Some cnt, Some lat, Some lon, Some alt) \<Rightarrow>
             if \<not> is_valid_coordinate (Some lat) (Some lon) then None
             else Some \<lparr>source = ''KNOWN_TYPE'', type_hex = hex (py_slice record 1 4),
                        counter = Some cnt, latitude = fl_val lat, longitude = fl_val lon,
                        altitude = Some alt, record_offset = 24, record_pos = None\<rparr>
         | _ \<Rightarrow> None))"

definition parse_known_gps_relative :: "byte list \<Rightarrow> relative_point option" where
  "parse_known_gps_relative record =
     (if length record < 40 then None
      else if \<not> (record ! 1 = 0x27 \<and> record ! 2 = 0x52) then None
      else
        (case (unpack_I (py_slice record 4 8), unpack_f (py_slice record 20 24),
               unpack_f (py_slice record 24 28), unpack_f (py_slice record 28 32)) of
           (Some cnt, Some x, Some y, Some z) \<Rightarrow>
             Some \<lparr>rel_source = ''KNOWN_RELATIVE'', rel_type_hex = hex (py_slice record 1 4),
                   rel_counter = cnt, rel_x = x, rel_y = y, rel_z = z,
                   rel_record_offset = 20\<rparr>
         | _ \<Rightarrow> None))"

text \<open>\<open>b'KS'\<close>.\<close>

definition ks_tag :: "byte list" where
  "ks_tag = [0x4B, 0x53]"

definition parse_ks_telemetry :: "byte list \<Rightarrow> telemetry_sample option" where
  "parse_ks_telemetry record =
     (if length record < 77 then None
      else if py_slice record 1 3 \<noteq> ks_tag then None
      else
        (case (unpack_I (py_slice record 4 8), unpack_f (py_slice record 32 36),
               unpack_f (py_slice record 36 40), unpack_f (py_slice record 40 44)) of
           (Some cnt, Some p1, Some p2, Some p3) \<Rightarrow>
             Some \<lparr>tel_counter = cnt, param1 = p1, param2 = p2, param3 = p3\<rparr>
         | _ \<Rightarrow> None))"

subsection \<open>Record framing and the two parsing phases\<close>

text \<open>
  \<open>find_records\<close>: the argument \<open>i\<close> is the position of the first byte of the rest of
  the buffer. \<open>data.find(b'\x7E', i + 1)\<close> is the end of the run of bytes other than
  \<open>0x7E\<close> that follows position \<open>i\<close>.
\<close>

function find_records_from :: "nat \<Rightarrow> byte list \<Rightarrow> (nat \<times> byte list) list" where
  "find_records_from i [] = []"
| "find_records_from i (b # bs) =
     (if b = 0x7E then
        (i, b # takeWhile (\<lambda>c. c \<noteq> 0x7E) bs)
          # find_records_from (i + 1 + length (takeWhile (\<lambda>c. c \<noteq> 0x7E) bs))
              (dropWhile (\<lambda>c. c \<noteq> 0x7E) bs)
      else find_records_from (i + 1) bs)"
  by pat_completeness auto
termination
  by (relation "measure (\<lambda>(i, bs). length bs)")
     (auto simp: length_dropWhile_le less_Suc_eq_le)

definition find_records :: "byte list \<Rightarrow> (nat \<times> byte list) list" where
  "find_records data = find_records_from 0 data"

text \<open>\<open>s.startswith(p)\<close>.\<close>

definition startswith :: "string \<Rightarrow> string \<Rightarrow> bool" where
  "startswith s p = (take (length p) s = p)"

text \<open>The body of the first loop of \<open>parse_all\<close>.\<close>

definition phase1_step :: "session \<Rightarrow> nat \<times> byte list \<Rightarrow> session" where
  "phase1_step s pr =
     (let record = snd pr in
      if length record < 4 then s
      else if record ! 1 = 0x23 \<and> record ! 2 = 0x52 then
        (case parse_known_gps_absolute record of
           None \<Rightarrow> s
         | Some gps \<Rightarrow>
             s\<lparr>gps_known := gps_known s @ [KnownAbsolute gps],
               gps_all := gps_all s @ [gps],
               coord_history := coord_history s @ [(latitude gps, longitude gps)]\<rparr>)
      else if record ! 1 = 0x27 \<and> record ! 2 = 0x52 then
        (case parse_known_gps_relative record of
           None \<Rightarrow> s
         | Some gps \<Rightarrow> s\<lparr>gps_known := gps_known s @ [KnownRelative gps]\<rparr>)
      else s)"

fun phase1 :: "session \<Rightarrow> (nat \<times> byte list) list \<Rightarrow> session" where
  "phase1 s [] = s"
| "phase1 s (pr # prs) = phase1 (phase1_step s pr) prs"

text \<open>The statement between the two loops.\<close>

definition after_phase1 :: "session \<Rightarrow> session" where
  "after_phase1 s = (if length (coord_history s) > 0 then update_region_center s else s)"

text \<open>The dictionary built from the first candidate of a record at position \<open>pos\<close>.\<close>

definition discovered_point :: "string \<Rightarrow> candidate \<Rightarrow> nat \<Rightarrow> gps_point" where
  "discovered_point th best pos =
     \<lparr>source = ''DISCOVERED'', type_hex = th, counter = None,
      latitude = cand_latitude best, longitude = cand_longitude best,
      altitude = cand_altitude best, record_offset = cand_offset best,
      record_pos = Some pos\<rparr>"

text \<open>The body of the second loop of \<open>parse_all\<close>.\<close>

definition phase2_step :: "session \<Rightarrow> nat \<times> byte list \<Rightarrow> session" where
  "phase2_step s pr =
     (let pos = fst pr; record = snd pr in
      if length record < 4 then s
      else
        let th = hex (py_slice record 1 (min 4 (length record))) in
        if startswith th ''2352'' \<or> startswith th ''2752'' then s
        else if py_slice record 1 3 = ks_tag then
          (case parse_ks_telemetry record of
             None \<Rightarrow> s
           | Some tel \<Rightarrow> s\<lparr>telemetry := telemetry s @ [tel]\<rparr>)
        else
          (case find_gps_in_record s record of
             [] \<Rightarrow> s
           | best # _ \<Rightarrow>
               let s1 = s\<lparr>gps_discovered := gps_discovered s @ [discovered_point th best pos]\<rparr>;
                   s2 = s1\<lparr>gps_all := gps_all s1 @ [last (gps_discovered s1)]\<rparr>;
                   s3 = s2\<lparr>coord_history :=
                             coord_history s2 @ [(cand_latitude best, cand_longitude best)]\<rparr>
               in if length (coord_history s3) mod 100 = 0 then update_region_center s3
                  else s3))"

fun phase2 :: "session \<Rightarrow> (nat \<times> byte list) list \<Rightarrow> session" where
  "phase2 s [] = s"
| "phase2 s (pr # prs) = phase2 (phase2_step s pr) prs"

text \<open>\<open>parse_all\<close> on the records the framer returned, and on a whole buffer.\<close>

definition parse_records :: "session \<Rightarrow> (nat \<times> byte list) list \<Rightarrow> session" where
  "parse_records s records = phase2 (after_phase1 (phase1 s records)) records"

definition parse_all :: "byte list \<Rightarrow> session" where
  "parse_all data = parse_records init_session (find_records data)"

subsection \<open>Trajectory post-processing\<close>

text \<open>A trajectory point is the triple \<open>(lon, lat, alt)\<close>.\<close>

type_synonym coord = "real \<times> real \<times> pyfloat option"

definition alt_of :: "coord \<Rightarrow> pyfloat option" where
  "alt_of c = snd (snd c)"

text \<open>
  Truth value of a float or \<open>None\<close> in a condition: \<open>None\<close> and zero are false, every
  other float (NaN too) is true.
\<close>

fun truthy :: "pyfloat option \<Rightarrow> bool" where
  "truthy None = False"
| "truthy (Some (Finite a)) = (a \<noteq> 0)"
| "truthy (Some _) = True"

text \<open>The test \<open>coords[j][2] and coords[j][2] > 0\<close>.\<close>

definition has_altitude :: "coord \<Rightarrow> bool" where
  "has_altitude c = (truthy (alt_of c) \<and> (case alt_of c of None \<Rightarrow> False | Some a \<Rightarrow> fl_lt (Finite 0) a))"

text \<open>
  A scan \<open>for j in js: if <test on coords[j]>: found = coords[j][2]; break\<close>, started
  with \<open>found = None\<close>.
\<close>

fun scan_altitude :: "coord list \<Rightarrow> nat list \<Rightarrow> pyfloat option" where
  "scan_altitude coords [] = None"
| "scan_altitude coords (j # js) =
     (if has_altitude (coords ! j) then alt_of (coords ! j) else scan_altitude coords js)"

text \<open>
  \<open>range(i-1, max(0, i-20), -1)\<close> and \<open>range(i+1, min(len(coords), i+20))\<close>. On natural
  numbers \<open>i - 20\<close> is already \<open>max(0, i-20)\<close>; the stop value of a range is excluded.
\<close>

definition backward_range :: "nat \<Rightarrow> nat list" where
  "backward_range i = rev [Suc (i - 20) ..< i]"

definition forward_range :: "nat \<Rightarrow> nat \<Rightarrow> nat list" where
  "forward_range n i = [i + 1 ..< min n (i + 20)]"

text \<open>The test \<open>alt is None or alt <= 0\<close>.\<close>

definition needs_altitude :: "pyfloat option \<Rightarrow> bool" where
  "needs_altitude alt = (case alt of None \<Rightarrow> True | Some a \<Rightarrow> fl_le a (Finite 0))"

text \<open>The body of the loop of \<open>interpolate_altitude\<close> for the point at index \<open>i\<close>.\<close>

definition interpolate_point :: "coord list \<Rightarrow> nat \<Rightarrow> coord" where
  "interpolate_point coords i =
     (case coords ! i of
        (lon, lat, alt) \<Rightarrow>
          if needs_altitude alt then
            let prev_alt = scan_altitude coords (backward_range i);
                next_alt = scan_altitude coords (forward_range (length coords) i)
            in (lon, lat,
                if truthy prev_alt \<and> truthy next_alt
                then Some (fl_half (fl_add (the prev_alt) (the next_alt)))
                else if truthy prev_alt then prev_alt
                else if truthy next_alt then next_alt
                else Some (Finite 100))
          else (lon, lat, alt))"

definition interpolate_altitude :: "coord list \<Rightarrow> coord list" where
  "interpolate_altitude coords = map (interpolate_point coords) [0 ..< length coords]"

text \<open>
  The loop \<open>for i, (lon, lat, alt) in enumerate(coords): if dist < max_distance: return i\<close>;
  \<open>None\<close> when the loop ends without returning.
\<close>

fun first_close :: "real \<Rightarrow> real \<Rightarrow> real \<Rightarrow> nat \<Rightarrow> coord list \<Rightarrow> nat option" where
  "first_close center_lat center_lon max_distance i [] = None"
| "first_close center_lat center_lon max_distance i (c # cs) =
     (case c of
        (lon, lat, alt) \<Rightarrow>
          if calculate_distance lat lon center_lat center_lon < max_distance then Some i
          else first_close center_lat center_lon max_distance (Suc i) cs)"

definition find_real_start_point :: "coord list \<Rightarrow> nat" where
  "find_real_start_point coords =
     (if length coords < 20 then 0
      else
        let middle_start = length coords div 3;
            middle_end = 2 * length coords div 3;
            middle_coords = py_slice coords middle_start middle_end
        in if middle_coords = [] then 0
           else
             let middle_lats = map (\<lambda>c. fst (snd c)) middle_coords;
                 middle_lons = map fst middle_coords;
                 center_lat = sum_list middle_lats / real (length middle_lats);
                 center_lon = sum_list middle_lons / real (length middle_lons)
             in (case first_close center_lat center_lon 30 0 coords of
                   Some i \<Rightarrow> i
                 | None \<Rightarrow> 0))"

subsection \<open>Exporters\<close>

text \<open>
  A cell of the CSV file, before \<open>csv\<close> turns it into text: a string, a float, an
  integer, or the empty cell written for \<open>''\<close> and for \<open>None\<close>.
\<close>

datatype csv_cell = TextCell string | FloatCell pyfloat | IntCell nat | EmptyCell

definition csv_fieldnames :: "string list" where
  "csv_fieldnames =
     [''source'', ''type_hex'', ''latitude'', ''longitude'', ''altitude'', ''counter'',
      ''record_offset'']"

definition csv_row :: "gps_point \<Rightarrow> csv_cell list" where
  "csv_row gps =
     [TextCell (source gps), TextCell (type_hex gps),
      FloatCell (Finite (latitude gps)), FloatCell (Finite (longitude gps)),
      (case altitude gps of None \<Rightarrow> EmptyCell | Some a \<Rightarrow> FloatCell a),
      (case counter gps of None \<Rightarrow> EmptyCell | Some c \<Rightarrow> IntCell c),
      IntCell (record_offset gps)]"

text \<open>\<open>export_all_gps_csv\<close>: the header and the rows written.\<close>

definition export_all_gps_csv :: "session \<Rightarrow> string list \<times> csv_cell list list" where
  "export_all_gps_csv s = (csv_fieldnames, map csv_row (gps_all s))"

text \<open>
  The KML document: the point count of the description, the coordinate list of the
  path, and the coordinates of the two markers. Number formatting is not modelled.
\<close>

record kml_document =
  point_count :: nat
  path :: "coord list"
  start_marker :: coord
  finish_marker :: coord

text \<open>
  What \<open>export_trajectory_kml\<close> did: whether it printed the no-coordinates warning, and
  the document it wrote to the file, if it wrote one.
\<close>

record export_outcome =
  warned_no_coordinates :: bool
  written :: "kml_document option"

text \<open>
  Every dictionary of \<open>gps_all\<close> has the keys \<open>latitude\<close> and \<open>longitude\<close>, so the
  comprehension keeps every entry.
\<close>

definition raw_coords_of :: "session \<Rightarrow> coord list" where
  "raw_coords_of s = map (\<lambda>g. (longitude g, latitude g, altitude g)) (gps_all s)"

text \<open>The number of the first ten points further than 30 km from the centre.\<close>

definition count_outliers :: "coord list \<Rightarrow> real \<Rightarrow> real \<Rightarrow> nat" where
  "count_outliers raw_coords center_lat center_lon =
     length (filter (\<lambda>i. calculate_distance (fst (snd (raw_coords ! i))) (fst (raw_coords ! i))
                            center_lat center_lon > 30)
               [0 ..< min 10 (length raw_coords)])"

text \<open>The start index after the additional check on the first ten points.\<close>

definition trim_start :: "coord list \<Rightarrow> nat" where
  "trim_start raw_coords =
     (let start_idx = find_real_start_point raw_coords in
      if start_idx < 5 \<and> length raw_coords > 50 then
        let middle_coords =
              py_slice raw_coords (length raw_coords div 3) (2 * length raw_coords div 3)
        in if middle_coords \<noteq> [] then
             let center_lat = sum_list (map (\<lambda>c. fst (snd c)) middle_coords)
                                / real (length middle_coords);
                 center_lon = sum_list (map fst middle_coords) / real (length middle_coords)
             in if count_outliers raw_coords center_lat center_lon > 5 then 10 else start_idx
           else start_idx
      else start_idx)"

definition export_trajectory_kml :: "session \<Rightarrow> export_outcome" where
  "export_trajectory_kml s =
     (let raw_coords = raw_coords_of s in
      if raw_coords = [] then \<lparr>warned_no_coordinates = True, written = None\<rparr>
      else
        let start_idx = trim_start raw_coords;
            trimmed = (if start_idx > 0 then drop start_idx raw_coords else raw_coords);
            coords = interpolate_altitude trimmed
        in if coords = [] then \<lparr>warned_no_coordinates = True, written = None\<rparr>
           else \<lparr>warned_no_coordinates = False,
                 written = Some \<lparr>point_count = length coords, path = coords,
                                  start_marker = hd coords, finish_marker = last coords\<rparr>\<rparr>)"

subsection \<open>Reference notions and sample inputs\<close>

text \<open>
  The lower median of the specification: the element of the sorted list at the lower of
  the two middle positions when the length is even.
\<close>

definition lower_median :: "real list \<Rightarrow> real" where
  "lower_median xs = sort xs ! ((length xs - 1) div 2)"

text \<open>The little-endian unsigned 32-bit integer stored at byte offset \<open>off\<close> of a record.\<close>

definition le_uint32_at :: "byte list \<Rightarrow> nat \<Rightarrow> nat" where
  "le_uint32_at record off =
     unat (record ! off) + 256 * unat (record ! (off + 1)) + 65536 * unat (record ! (off + 2))
       + 16777216 * unat (record ! (off + 3))"

text \<open>A session whose history holds the two points (55.5, 37.5) and (55.75, 37.625).\<close>

definition history2 :: session where
  "history2 = init_session\<lparr>coord_history := [(111 / 2, 75 / 2), (223 / 4, 301 / 8)]\<rparr>"

text \<open>
  An absolute-GPS record of 36 bytes: counter 1, latitude 55.75, longitude 37.625,
  altitude 150.
\<close>

definition rec_abs :: "byte list" where
  "rec_abs = [0x7E, 0x23, 0x52, 0x00, 0x01, 0x00, 0x00, 0x00,
              0, 0, 0, 0, 0, 0, 0, 0, 0, 0, 0, 0, 0, 0, 0, 0,
              0x00, 0x00, 0x5F, 0x42, 0x00, 0x80, 0x16, 0x42, 0x00, 0x00, 0x16, 0x43]"

text \<open>A buffer: four bytes that start no record, then the absolute-GPS record.\<close>

definition data_abs :: "byte list" where
  "data_abs = [0, 0, 0, 0] @ rec_abs"

text \<open>The dictionary decoded from that record.\<close>

definition point_abs :: gps_point where
  "point_abs =
     \<lparr>source = ''KNOWN_TYPE'', type_hex = ''235200'', counter = Some 1, latitude = 223 / 4,
      longitude = 301 / 8, altitude = Some (Finite 150), record_offset = 24,
      record_pos = None\<rparr>"

text \<open>
  A record of 13 bytes with an unknown tag that holds latitude 55.75 and longitude 180 at
  offset 4.
\<close>

definition rec_disc :: "byte list" where
  "rec_disc = [0x7E, 0x01, 0x02, 0x03, 0x00, 0x00, 0x5F, 0x42, 0x00, 0x00, 0x34, 0x43, 0x00]"

text \<open>
  A second absolute-GPS record: counter 2, latitude 55.875, longitude 37.75, altitude 0;
  and the dictionary decoded from it.
\<close>

definition rec_zero :: "byte list" where
  "rec_zero = [0x7E, 0x23, 0x52, 0x00, 0x02, 0x00, 0x00, 0x00,
               0, 0, 0, 0, 0, 0, 0, 0, 0, 0, 0, 0, 0, 0, 0, 0,
               0x00, 0x80, 0x5F, 0x42, 0x00, 0x00, 0x17, 0x42, 0x00, 0x00, 0x00, 0x00]"

definition point_zero :: gps_point where
  "point_zero =
     \<lparr>source = ''KNOWN_TYPE'', type_hex = ''235200'', counter = Some 2, latitude = 447 / 8,
      longitude = 151 / 4, altitude = Some (Finite 0), record_offset = 24,
      record_pos = None\<rparr>"



text \<open>
  Two absolute-GPS records on the antimeridian, latitude 55.75 and altitude 150:
  \<open>rec_west\<close> with longitude -180 and \<open>rec_east\<close> with longitude 180, and the
  dictionaries decoded from them.
\<close>

definition rec_west :: "byte list" where
  "rec_west = [0x7E, 0x23, 0x52, 0x00, 0x04, 0x00, 0x00, 0x00,
               0, 0, 0, 0, 0, 0, 0, 0, 0, 0, 0, 0, 0, 0, 0, 0,
               0x00, 0x00, 0x5F, 0x42, 0x00, 0x00, 0x34, 0xC3, 0x00, 0x00, 0x16, 0x43]"

definition point_west :: gps_point where
  "point_west =
     \<lparr>source = ''KNOWN_TYPE'', type_hex = ''235200'', counter = Some 4, latitude = 223 / 4,
      longitude = - 180, altitude = Some (Finite 150), record_offset = 24,
      record_pos = None\<rparr>"

definition rec_east :: "byte list" where
  "rec_east = [0x7E, 0x23, 0x52, 0x00, 0x05, 0x00, 0x00, 0x00,
               0, 0, 0, 0, 0, 0, 0, 0, 0, 0, 0, 0, 0, 0, 0, 0,
               0x00, 0x00, 0x5F, 0x42, 0x00, 0x00, 0x34, 0x43, 0x00, 0x00, 0x16, 0x43]"

definition point_east :: gps_point where
  "point_east =
     \<lparr>source = ''KNOWN_TYPE'', type_hex = ''235200'', counter = Some 5, latitude = 223 / 4,
      longitude = 180, altitude = Some (Finite 150), record_offset = 24,
      record_pos = None\<rparr>"

text \<open>
  A buffer of 50 records \<open>rec_west\<close>, 49 records \<open>rec_east\<close> and the unknown record
  \<open>rec_disc\<close>, and the records the framer finds in it.
\<close>

definition data_99_known :: "byte list" where
  "data_99_known = concat (replicate 50 rec_west) @ concat (replicate 49 rec_east) @ rec_disc"

definition records_99_known :: "(nat \<times> byte list) list" where
  "records_99_known =
     map (\<lambda>i. (36 * i, rec_west)) [0 ..< 50] @ map (\<lambda>i. (36 * i, rec_east)) [50 ..< 99]
       @ [(3564, rec_disc)]"

text \<open>The definitions end here; the rest of the theory states and proves properties.\<close>

section \<open>Region tracker\<close>

text \<open>
  C6 (as amended). For every non-empty coordinate history, \<open>update_region_center\<close> stores
  as the region estimate, per axis, the element at index \<open>len div 2\<close> of the sorted
  accumulated latitudes and of the sorted accumulated longitudes. For an even length this
  is the upper of the two middle elements: it is never below the lower median.
\<close>

theorem update_region_center_index:
  assumes "coord_history s \<noteq> []"
  shows "region_center (update_region_center s) =
           Some (sort (map fst (coord_history s)) ! (length (coord_history s) div 2),
                 sort (map snd (coord_history s)) ! (length (coord_history s) div 2))
         \<and> lower_median (map fst (coord_history s))
             \<le> sort (map fst (coord_history s)) ! (length (coord_history s) div 2)
         \<and> lower_median (map snd (coord_history s))
             \<le> sort (map snd (coord_history s)) ! (length (coord_history s) div 2)"
proof -
  have mono: "lower_median xs \<le> sort xs ! (length xs div 2)" if "xs \<noteq> []" for xs :: "real list"
  proof -
    have "(length xs - 1) div 2 \<le> length xs div 2" by (simp add: div_le_mono)
    moreover have "length xs div 2 < length (sort xs)" using that by simp
    ultimately show ?thesis
      unfolding lower_median_def by (intro sorted_nth_mono) simp_all
  qed
  show ?thesis
    using assms mono [of "map fst (coord_history s)"] mono [of "map snd (coord_history s)"]
    by (simp add: update_region_center_def Let_def)
qed

theorem update_region_center_index_witness:
  "coord_history history2 \<noteq> []
   \<and> region_center (update_region_center history2) = Some (223 / 4, 301 / 8)"
  using update_region_center_index [of history2]
  by (simp add: history2_def init_session_def)

text \<open>
  C6 as stated fails: with the two-point history above the stored estimate is
  (55.75, 37.625), the upper of the two sorted values on each axis, while the lower
  median is (55.5, 37.5).
\<close>

theorem update_region_center_not_lower_median:
  "region_center (update_region_center history2)
     \<noteq> Some (lower_median (map fst (coord_history history2)),
             lower_median (map snd (coord_history history2)))"
  by (simp add: update_region_center_def history2_def init_session_def lower_median_def)

subsection \<open>Coherence check\<close>

lemma py_min_Finite: "py_min (Finite a) (Finite b) = Finite (min a b)"
  by (simp add: py_min_def min_def)

lemma py_min_PosInf: "py_min PosInf (Finite b) = Finite b"
  by (simp add: py_min_def)

lemma fold_py_min_Finite:
  "fold (\<lambda>h m. py_min m (Finite (f h))) hs (Finite a) = Finite (Min (insert a (f ` set hs)))"
proof (induction hs arbitrary: a)
  case Nil
  show ?case by simp
next
  case (Cons h hs)
  have "Min (insert (min a (f h)) (f ` set hs)) = Min (insert a (insert (f h) (f ` set hs)))"
  proof (cases "set hs = {}")
    case True
    then show ?thesis by (simp add: min.commute)
  next
    case False
    then show ?thesis by (simp add: Min_insert min.assoc [symmetric])
  qed
  with Cons show ?case by (simp add: py_min_Finite)
qed

lemma fold_py_min_PosInf:
  assumes "hs \<noteq> []"
  shows "fold (\<lambda>h m. py_min m (Finite (f h))) hs PosInf = Finite (Min (f ` set hs))"
proof (cases hs)
  case Nil
  with assms show ?thesis by simp
next
  case (Cons h hs')
  then show ?thesis by (simp add: py_min_PosInf fold_py_min_Finite)
qed

lemma last10_nonempty: "xs \<noteq> [] \<Longrightarrow> last10 xs \<noteq> []"
  by (cases xs) (simp_all add: last10_def)


lemma distance_same_point: "calculate_distance lat lon lat lon = 0"
  by (simp add: calculate_distance_def radians_def atan2_def)



section \<open>Known-schema decoder\<close>

lemma slice4:
  assumes "a + 4 \<le> length r"
  shows "py_slice r a (a + 4) = [r ! a, r ! (a + 1), r ! (a + 2), r ! (a + 3)]"
proof (rule nth_equalityI)
  show "length (py_slice r a (a + 4)) = length [r ! a, r ! (a + 1), r ! (a + 2), r ! (a + 3)]"
    using assms by (simp add: py_slice_def)
next
  fix i
  assume "i < length (py_slice r a (a + 4))"
  then have "i < 4" by (simp add: py_slice_def)
  then consider "i = 0" | "i = 1" | "i = 2" | "i = 3" by linarith
  then show "py_slice r a (a + 4) ! i = [r ! a, r ! (a + 1), r ! (a + 2), r ! (a + 3)] ! i"
    using assms by cases (simp_all add: py_slice_def)
qed

lemma unpack_I_slice:
  "a + 4 \<le> length r \<Longrightarrow> unpack_I (py_slice r a (a + 4)) = Some (le_uint32_at r a)"
  by (simp add: slice4 le_uint32_at_def)

lemma unpack_f_slice:
  "a + 4 \<le> length r \<Longrightarrow> unpack_f (py_slice r a (a + 4)) = Some (f32_value (le_uint32_at r a))"
  by (simp add: unpack_f_def unpack_I_slice)

lemma absolute_fields:
  assumes "36 \<le> length record"
  shows "unpack_I (py_slice record 4 8) = Some (le_uint32_at record 4)"
    and "unpack_f (py_slice record 24 28) = Some (f32_value (le_uint32_at record 24))"
    and "unpack_f (py_slice record 28 32) = Some (f32_value (le_uint32_at record 28))"
    and "unpack_f (py_slice record 32 36) = Some (f32_value (le_uint32_at record 32))"
  using assms unpack_I_slice [of 4 "record"] unpack_f_slice [of 24 "record"]
    unpack_f_slice [of 28 "record"] unpack_f_slice [of 32 "record"]
  by simp_all

lemma valid_coordinate_finite:
  assumes "is_valid_coordinate (Some lat) (Some lon)"
  shows "\<exists>x y. lat = Finite x \<and> lon = Finite y \<and> - 90 \<le> x \<and> x \<le> 90 \<and> - 180 \<le> y \<and> y \<le> 180
           \<and> \<not> (\<bar>x\<bar> < 1 / 100 \<and> \<bar>y\<bar> < 1 / 100)"
  using assms
  by (cases lat; cases lon) (auto simp: is_valid_coordinate_def split: if_splits)

text \<open>
  C7. The absolute-GPS decoder returns a sample exactly when the record has at least 36
  bytes, its tag bytes are \<open>0x23 0x52\<close> and the decoded latitude and longitude pass
  \<open>is_valid_coordinate\<close>; with 36 bytes or more every field decode succeeds. The sample's
  counter is the little-endian unsigned integer at offset 4, and its latitude, longitude
  and altitude are the binary32 values of the little-endian words at offsets 24, 28 and
  32. In every other case the decoder returns \<open>None\<close>.
\<close>

theorem parse_known_gps_absolute_iff:
  "(parse_known_gps_absolute record \<noteq> None \<longleftrightarrow>
      36 \<le> length record \<and> record ! 1 = 0x23 \<and> record ! 2 = 0x52
      \<and> is_valid_coordinate (Some (f32_value (le_uint32_at record 24)))
                             (Some (f32_value (le_uint32_at record 28))))
   \<and> (36 \<le> length record \<longrightarrow>
        unpack_I (py_slice record 4 8) = Some (le_uint32_at record 4)
        \<and> unpack_f (py_slice record 24 28) = Some (f32_value (le_uint32_at record 24))
        \<and> unpack_f (py_slice record 28 32) = Some (f32_value (le_uint32_at record 28))
        \<and> unpack_f (py_slice record 32 36) = Some (f32_value (le_uint32_at record 32)))
   \<and> (\<forall>g. parse_known_gps_absolute record = Some g \<longrightarrow>
        counter g = Some (le_uint32_at record 4)
        \<and> Finite (latitude g) = f32_value (le_uint32_at record 24)
        \<and> Finite (longitude g) = f32_value (le_uint32_at record 28)
        \<and> altitude g = Some (f32_value (le_uint32_at record 32))
        \<and> record_offset g = 24)"
proof (cases "36 \<le> length record")
  case False
  then show ?thesis by (simp add: parse_known_gps_absolute_def)
next
  case long: True
  note f = absolute_fields [OF long]
  show ?thesis
  proof (cases "is_valid_coordinate (Some (f32_value (le_uint32_at record 24)))
                  (Some (f32_value (le_uint32_at record 28)))")
    case False
    with long show ?thesis by (simp add: parse_known_gps_absolute_def f)
  next
    case True
    from valid_coordinate_finite [OF True] obtain x y
      where "f32_value (le_uint32_at record 24) = Finite x"
        and "f32_value (le_uint32_at record 28) = Finite y" by blast
    with True long show ?thesis
      by (auto simp: parse_known_gps_absolute_def f)
  qed
qed

lemma rec_abs_fields:
  "length rec_abs = 36" "rec_abs ! Suc 0 = 0x23" "rec_abs ! 2 = 0x52"
  "le_uint32_at rec_abs 4 = 1"
  "f32_value (le_uint32_at rec_abs 24) = Finite (223 / 4)"
  "f32_value (le_uint32_at rec_abs 28) = Finite (301 / 8)"
  "f32_value (le_uint32_at rec_abs 32) = Finite 150"
  by (simp_all add: rec_abs_def le_uint32_at_def f32_value_def)

theorem parse_known_gps_absolute_iff_witness:
  "36 \<le> length rec_abs
   \<and> (\<exists>g. parse_known_gps_absolute rec_abs = Some g \<and> counter g = Some 1
            \<and> latitude g = 223 / 4 \<and> longitude g = 301 / 8 \<and> altitude g = Some (Finite 150))
   \<and> parse_known_gps_absolute (take 35 rec_abs) = None"
proof -
  have "parse_known_gps_absolute rec_abs \<noteq> None"
    using parse_known_gps_absolute_iff [of rec_abs]
    by (simp add: rec_abs_fields is_valid_coordinate_def)
  then obtain g where g: "parse_known_gps_absolute rec_abs = Some g" by blast
  moreover have "parse_known_gps_absolute (take 35 rec_abs) = None"
    using parse_known_gps_absolute_iff [of "take 35 rec_abs"] by (simp add: rec_abs_fields)
  ultimately show ?thesis
    using parse_known_gps_absolute_iff [of rec_abs]
    by (simp add: rec_abs_fields)
qed

section \<open>Parsing phases\<close>

lemma parse_known_gps_absolute_Some:
  assumes "parse_known_gps_absolute r = Some g"
  shows "\<exists>cnt lat lon alt.
           36 \<le> length r \<and> r ! 1 = 0x23 \<and> r ! 2 = 0x52
           \<and> unpack_f (py_slice r 24 28) = Some lat \<and> unpack_f (py_slice r 28 32) = Some lon
           \<and> is_valid_coordinate (Some lat) (Some lon)
           \<and> g = \<lparr>source = ''KNOWN_TYPE'', type_hex = hex (py_slice r 1 4), counter = Some cnt,
                   latitude = fl_val lat, longitude = fl_val lon, altitude = Some alt,
                   record_offset = 24, record_pos = None\<rparr>"
  using assms
  by (auto simp: parse_known_gps_absolute_def split: if_splits option.splits)

lemma update_region_center_fields [simp]:
  "gps_all (update_region_center s) = gps_all s"
  "gps_discovered (update_region_center s) = gps_discovered s"
  "gps_known (update_region_center s) = gps_known s"
  "telemetry (update_region_center s) = telemetry s"
  "coord_history (update_region_center s) = coord_history s"
  by (simp_all add: update_region_center_def Let_def)

lemma after_phase1_fields [simp]:
  "gps_all (after_phase1 s) = gps_all s"
  "gps_discovered (after_phase1 s) = gps_discovered s"
  "coord_history (after_phase1 s) = coord_history s"
  by (simp_all add: after_phase1_def)

lemma phase1_step_gps_all:
  "gps_all (phase1_step s pr) = gps_all s
   \<or> (\<exists>g. parse_known_gps_absolute (snd pr) = Some g \<and> gps_all (phase1_step s pr) = gps_all s @ [g])"
  by (simp add: phase1_step_def Let_def split: option.splits)

lemma phase2_step_gps_all:
  "gps_all (phase2_step s pr) = gps_all s
   \<or> (\<exists>best rest th. find_gps_in_record s (snd pr) = best # rest
         \<and> gps_all (phase2_step s pr) = gps_all s @ [discovered_point th best (fst pr)])"
  by (auto simp: phase2_step_def Let_def split: option.splits list.splits)

lemma phase1_invariant:
  assumes "\<forall>g \<in> set (gps_all s). P g"
    and "\<And>pos r g. (pos, r) \<in> set records \<Longrightarrow> parse_known_gps_absolute r = Some g \<Longrightarrow> P g"
  shows "\<forall>g \<in> set (gps_all (phase1 s records)). P g"
  using assms
proof (induction records arbitrary: s)
  case Nil
  then show ?case by simp
next
  case (Cons pr prs)
  have "\<forall>g \<in> set (gps_all (phase1_step s pr)). P g"
    using phase1_step_gps_all [of s pr] Cons.prems(1) Cons.prems(2) [of "fst pr" "snd pr"]
    by auto
  then have "\<forall>g \<in> set (gps_all (phase1 (phase1_step s pr) prs)). P g"
  proof (rule Cons.IH)
    fix pos r g
    assume "(pos, r) \<in> set prs" "parse_known_gps_absolute r = Some g"
    then show "P g" using Cons.prems(2) [of pos r g] by simp
  qed
  then show ?case by simp
qed

lemma phase2_invariant:
  assumes "\<forall>g \<in> set (gps_all s). P g"
    and "\<And>s' pos r best rest th. (pos, r) \<in> set records \<Longrightarrow>
           find_gps_in_record s' r = best # rest \<Longrightarrow> P (discovered_point th best pos)"
  shows "\<forall>g \<in> set (gps_all (phase2 s records)). P g"
  using assms
proof (induction records arbitrary: s)
  case Nil
  then show ?case by simp
next
  case (Cons pr prs)
  have "\<forall>g \<in> set (gps_all (phase2_step s pr)). P g"
    using phase2_step_gps_all [of s pr] Cons.prems(1) Cons.prems(2) [of "fst pr" "snd pr" s]
    by auto
  then have "\<forall>g \<in> set (gps_all (phase2 (phase2_step s pr) prs)). P g"
  proof (rule Cons.IH)
    fix s' pos r best rest th
    assume "(pos, r) \<in> set prs" "find_gps_in_record s' r = best # rest"
    then show "P (discovered_point th best pos)"
      using Cons.prems(2) [of pos r s' best rest th] by simp
  qed
  then show ?case by simp
qed

lemma parse_records_invariant:
  assumes "\<forall>g \<in> set (gps_all s). P g"
    and "\<And>pos r g. (pos, r) \<in> set records \<Longrightarrow> parse_known_gps_absolute r = Some g \<Longrightarrow> P g"
    and "\<And>s' pos r best rest th. (pos, r) \<in> set records \<Longrightarrow>
           find_gps_in_record s' r = best # rest \<Longrightarrow> P (discovered_point th best pos)"
  shows "\<forall>g \<in> set (gps_all (parse_records s records)). P g"
proof -
  have "\<forall>g \<in> set (gps_all (after_phase1 (phase1 s records))). P g"
    using phase1_invariant [of s P records] assms(1,2) by simp
  then show ?thesis
    unfolding parse_records_def using assms(3) by (rule phase2_invariant)
qed

section \<open>Locator\<close>

lemma map_filter_upt_first:
  assumes "List.map_filter f [a ..< b] = y # ys"
  shows "\<exists>k. a \<le> k \<and> k < b \<and> f k = Some y \<and> (\<forall>j. a \<le> j \<and> j < k \<longrightarrow> f j = None)"
  using assms
proof (induction "b - a" arbitrary: a)
  case 0
  then show ?case by simp
next
  case (Suc n)
  then have ab: "a < b" by simp
  then have upt: "[a ..< b] = a # [Suc a ..< b]" by (simp add: upt_conv_Cons)
  show ?case
  proof (cases "f a")
    case (Some z)
    with Suc.prems upt have "z = y" by simp
    with Some ab show ?thesis by auto
  next
    case None
    with Suc.prems upt have "List.map_filter f [Suc a ..< b] = y # ys"
      by simp
    moreover have "n = b - Suc a" using Suc.hyps(2) by simp
    ultimately obtain k where k: "Suc a \<le> k" "k < b" "f k = Some y"
      "\<forall>j. Suc a \<le> j \<and> j < k \<longrightarrow> f j = None"
      using Suc.hyps(1) [of "Suc a"] by blast
    have "f j = None" if "a \<le> j \<and> j < k" for j
      using that k(4) None by (cases "j = a") auto
    with k show ?thesis by (intro exI [of _ k]) auto
  qed
qed


lemma candidate_at_Some:
  assumes "candidate_at s r k = Some c"
  shows "\<exists>lat lon. unpack_f (py_slice r k (k + 4)) = Some lat
           \<and> unpack_f (py_slice r (k + 4) (k + 8)) = Some lon
           \<and> passes_filters s lat lon
           \<and> cand_offset c = k \<and> cand_latitude c = fl_val lat \<and> cand_longitude c = fl_val lon"
  using assms
  by (auto simp: candidate_at_def Let_def split: option.splits if_splits)

lemma find_gps_first:
  assumes "find_gps_in_record s r = best # rest"
  shows "12 \<le> length r \<and> 4 \<le> cand_offset best \<and> cand_offset best < min (length r - 8) 80
         \<and> candidate_at s r (cand_offset best) = Some best
         \<and> (\<forall>j. 4 \<le> j \<and> j < cand_offset best \<longrightarrow> candidate_at s r j = None)"
proof -
  from assms have len: "12 \<le> length r"
    by (simp add: find_gps_in_record_def split: if_splits)
  with assms have "List.map_filter (candidate_at s r) [4 ..< min (length r - 8) 80] = best # rest"
    by (simp add: find_gps_in_record_def)
  from map_filter_upt_first [OF this] obtain k where k: "4 \<le> k" "k < min (length r - 8) 80"
    "candidate_at s r k = Some best" "\<forall>j. 4 \<le> j \<and> j < k \<longrightarrow> candidate_at s r j = None"
    by blast
  from candidate_at_Some [OF k(3)] have "cand_offset best = k" by blast
  with k len show ?thesis by simp
qed

lemma passes_filters_valid:
  "passes_filters s lat lon \<Longrightarrow> is_valid_coordinate (Some lat) (Some lon)"
  by (simp add: passes_filters_def split: if_splits)

section \<open>The sample buffer\<close>

lemma find_records_data_abs: "find_records data_abs = [(4, rec_abs)]"
  by (simp add: find_records_def data_abs_def rec_abs_def)

lemma rec_abs_slices:
  "py_slice rec_abs 4 8 = [1, 0, 0, 0]"
  "py_slice rec_abs 24 28 = [0x00, 0x00, 0x5F, 0x42]"
  "py_slice rec_abs 28 32 = [0x00, 0x80, 0x16, 0x42]"
  "py_slice rec_abs 32 36 = [0x00, 0x00, 0x16, 0x43]"
  "py_slice rec_abs (Suc 0) 4 = [0x23, 0x52, 0x00]"
  by (simp_all add: py_slice_def rec_abs_def)

lemma unpack_samples:
  "unpack_I [1, 0, 0, 0] = Some 1"
  "unpack_f [0x00, 0x00, 0x5F, 0x42] = Some (Finite (223 / 4))"
  "unpack_f [0x00, 0x80, 0x16, 0x42] = Some (Finite (301 / 8))"
  "unpack_f [0x00, 0x00, 0x16, 0x43] = Some (Finite 150)"
  by (simp_all add: unpack_f_def f32_value_def)

lemma hex_abs_tag: "hex [0x23, 0x52, 0x00] = ''235200''"
  by (simp add: hex_def hex_digit_def)

lemma parse_rec_abs: "parse_known_gps_absolute rec_abs = Some point_abs"
  by (simp add: parse_known_gps_absolute_def rec_abs_fields rec_abs_slices unpack_samples
      hex_abs_tag is_valid_coordinate_def point_abs_def)

lemma phase1_step_rec_abs:
  "phase1_step s (pos, rec_abs) =
     s\<lparr>gps_known := gps_known s @ [KnownAbsolute point_abs],
       gps_all := gps_all s @ [point_abs],
       coord_history := coord_history s @ [(223 / 4, 301 / 8)]\<rparr>"
  by (simp add: phase1_step_def rec_abs_fields parse_rec_abs) (simp add: point_abs_def)

lemma phase2_step_rec_abs: "phase2_step s (pos, rec_abs) = s"
  by (simp add: phase2_step_def rec_abs_fields rec_abs_slices hex_abs_tag startswith_def)

lemma gps_all_data_abs: "gps_all (parse_all data_abs) = [point_abs]"
  by (simp add: parse_all_def find_records_data_abs parse_records_def phase1_step_rec_abs
      phase2_step_rec_abs init_session_def)

section \<open>Validity invariant\<close>

text \<open>
  C9. Every sample in \<open>gps_all\<close> after parsing, known-absolute or discovered, has its
  latitude in [-90, 90] and its longitude in [-180, 180], and not both within 0.01 of
  zero. The pair (0.005, 0.005) fails \<open>is_valid_coordinate\<close>, and the locator's filters
  reject it in every session.
\<close>

theorem gps_all_valid:
  "(\<forall>g \<in> set (gps_all (parse_records init_session records)).
      - 90 \<le> latitude g \<and> latitude g \<le> 90 \<and> - 180 \<le> longitude g \<and> longitude g \<le> 180
      \<and> \<not> (\<bar>latitude g\<bar> < 1 / 100 \<and> \<bar>longitude g\<bar> < 1 / 100))
   \<and> (\<forall>g \<in> set (gps_all (parse_all data)).
      - 90 \<le> latitude g \<and> latitude g \<le> 90 \<and> - 180 \<le> longitude g \<and> longitude g \<le> 180
      \<and> \<not> (\<bar>latitude g\<bar> < 1 / 100 \<and> \<bar>longitude g\<bar> < 1 / 100))
   \<and> \<not> is_valid_coordinate (Some (Finite (5 / 1000))) (Some (Finite (5 / 1000)))
   \<and> \<not> passes_filters s (Finite (5 / 1000)) (Finite (5 / 1000))"
proof -
  let ?P = "\<lambda>g. - 90 \<le> latitude g \<and> latitude g \<le> 90 \<and> - 180 \<le> longitude g
              \<and> longitude g \<le> 180 \<and> \<not> (\<bar>latitude g\<bar> < 1 / 100 \<and> \<bar>longitude g\<bar> < 1 / 100)"
  have known: "?P g" if "parse_known_gps_absolute r = Some g" for r g
  proof -
    from parse_known_gps_absolute_Some [OF that] obtain cnt lat lon alt where
      v: "is_valid_coordinate (Some lat) (Some lon)"
      and g: "g = \<lparr>source = ''KNOWN_TYPE'', type_hex = hex (py_slice r 1 4), counter = Some cnt,
                   latitude = fl_val lat, longitude = fl_val lon, altitude = Some alt,
                   record_offset = 24, record_pos = None\<rparr>"
      by blast
    from valid_coordinate_finite [OF v] g show ?thesis by auto
  qed
  have disc: "?P (discovered_point th best pos)"
    if "find_gps_in_record s' r = best # rest" for s' r best rest th pos
  proof -
    from find_gps_first [OF that]
    have "candidate_at s' r (cand_offset best) = Some best" by simp
    from candidate_at_Some [OF this] obtain lat lon where
      p: "passes_filters s' lat lon"
      and c: "cand_latitude best = fl_val lat" "cand_longitude best = fl_val lon"
      by blast
    from valid_coordinate_finite [OF passes_filters_valid [OF p]] c show ?thesis
      by (auto simp: discovered_point_def)
  qed
  have all: "\<forall>g \<in> set (gps_all (parse_records init_session recs)). ?P g" for recs
  proof (rule parse_records_invariant)
    show "\<forall>g \<in> set (gps_all init_session). ?P g" by (simp add: init_session_def)
  next
    fix pos r g
    assume "parse_known_gps_absolute r = Some g"
    then show "?P g" by (rule known)
  next
    fix s' pos r best rest th
    assume "find_gps_in_record s' r = best # rest"
    then show "?P (discovered_point th best pos)" by (rule disc)
  qed
  have "\<not> is_valid_coordinate (Some (Finite (5 / 1000))) (Some (Finite (5 / 1000)))"
    by (simp add: is_valid_coordinate_def)
  with all [of records] all [of "find_records data"] show ?thesis
    by (simp add: parse_all_def passes_filters_def)
qed

theorem gps_all_valid_witness:
  "gps_all (parse_all data_abs) = [point_abs]
   \<and> - 90 \<le> latitude point_abs \<and> latitude point_abs \<le> 90
   \<and> - 180 \<le> longitude point_abs \<and> longitude point_abs \<le> 180"
  using gps_all_valid [of "[]" data_abs init_session]
  by (simp add: gps_all_data_abs)

section \<open>Exporters\<close>

text \<open>
  C10. With no geographic sample in \<open>gps_all\<close> the trajectory exporter prints its
  warning and returns without writing a document.
\<close>

theorem export_trajectory_kml_empty:
  "gps_all s = [] \<Longrightarrow>
     export_trajectory_kml s = \<lparr>warned_no_coordinates = True, written = None\<rparr>"
  by (simp add: export_trajectory_kml_def raw_coords_of_def)

theorem export_trajectory_kml_empty_witness:
  "gps_all init_session = []
   \<and> export_trajectory_kml init_session = \<lparr>warned_no_coordinates = True, written = None\<rparr>"
  using export_trajectory_kml_empty [of init_session]
  by (simp add: init_session_def)

text \<open>
  C8 (as amended). The point export writes the header and one row per entry of
  \<open>gps_all\<close>, in order, and the last column of a row is the \<open>record_offset\<close> of its
  sample. That value is an offset inside the record, the place of the latitude field:
  24 for a known-absolute sample, and for a discovered sample the offset of the selected
  candidate, between 4 and 79, at which the record holds the sample's latitude. The
  position of the record in the file is kept in \<open>record_pos\<close> of a discovered sample
  only, and is not a column.
\<close>

theorem csv_last_column:
  "fst (export_all_gps_csv s) = csv_fieldnames
   \<and> last csv_fieldnames = ''record_offset''
   \<and> length (snd (export_all_gps_csv s)) = length (gps_all s)
   \<and> (\<forall>i < length (gps_all s).
        snd (export_all_gps_csv s) ! i = csv_row (gps_all s ! i)
        \<and> last (snd (export_all_gps_csv s) ! i) = IntCell (record_offset (gps_all s ! i)))
   \<and> (\<forall>g \<in> set (gps_all (parse_records init_session records)).
        (source g = ''KNOWN_TYPE'' \<and> record_offset g = 24 \<and> record_pos g = None)
        \<or> (source g = ''DISCOVERED'' \<and> 4 \<le> record_offset g \<and> record_offset g < 80
            \<and> (\<exists>(pos, r) \<in> set records. record_pos g = Some pos
                  \<and> record_offset g + 8 < length r
                  \<and> unpack_f (py_slice r (record_offset g) (record_offset g + 4))
                      = Some (Finite (latitude g)))))"
proof -
  let ?P = "\<lambda>g. (source g = ''KNOWN_TYPE'' \<and> record_offset g = 24 \<and> record_pos g = None)
        \<or> (source g = ''DISCOVERED'' \<and> 4 \<le> record_offset g \<and> record_offset g < 80
            \<and> (\<exists>(pos, r) \<in> set records. record_pos g = Some pos
                  \<and> record_offset g + 8 < length r
                  \<and> unpack_f (py_slice r (record_offset g) (record_offset g + 4))
                      = Some (Finite (latitude g))))"
  have known: "?P g" if "parse_known_gps_absolute r = Some g" for r g
    using parse_known_gps_absolute_Some [OF that] by auto
  have disc: "?P (discovered_point th best pos)"
    if "(pos, r) \<in> set records" "find_gps_in_record s' r = best # rest" for s' r best rest th pos
  proof -
    from find_gps_first [OF that(2)]
    have b: "12 \<le> length r" "4 \<le> cand_offset best" "cand_offset best < min (length r - 8) 80"
      "candidate_at s' r (cand_offset best) = Some best" by simp_all
    from candidate_at_Some [OF b(4)] obtain lat lon where
      u: "unpack_f (py_slice r (cand_offset best) (cand_offset best + 4)) = Some lat"
      and p: "passes_filters s' lat lon"
      and c: "cand_latitude best = fl_val lat"
      by blast
    from valid_coordinate_finite [OF passes_filters_valid [OF p]] obtain x where "lat = Finite x"
      by blast
    with u c b that(1) show ?thesis
      by (auto simp: discovered_point_def intro!: bexI [of _ "(pos, r)"])
  qed
  have "\<forall>g \<in> set (gps_all (parse_records init_session records)). ?P g"
  proof (rule parse_records_invariant)
    show "\<forall>g \<in> set (gps_all init_session). ?P g" by (simp add: init_session_def)
  next
    fix pos r g
    assume "parse_known_gps_absolute r = Some g"
    then show "?P g" by (rule known)
  next
    fix s' pos r best rest th
    assume "(pos, r) \<in> set records" "find_gps_in_record s' r = best # rest"
    then show "?P (discovered_point th best pos)" by (rule disc)
  qed
  then show ?thesis
    by (simp add: export_all_gps_csv_def csv_row_def csv_fieldnames_def)
qed

theorem csv_last_column_witness:
  "gps_all (parse_all data_abs) = [point_abs]
   \<and> length (snd (export_all_gps_csv (parse_all data_abs))) = 1
   \<and> snd (export_all_gps_csv (parse_all data_abs)) ! 0
       = [TextCell ''KNOWN_TYPE'', TextCell ''235200'', FloatCell (Finite (223 / 4)),
          FloatCell (Finite (301 / 8)), FloatCell (Finite 150), IntCell 1, IntCell 24]
   \<and> last (snd (export_all_gps_csv (parse_all data_abs)) ! 0) = IntCell 24"
  using csv_last_column [of "parse_all data_abs" "[]"]
  by (simp add: gps_all_data_abs csv_row_def point_abs_def)

text \<open>
  C8 as stated fails: in the sample buffer the record starts at position 4 of the file,
  and the last column of its row is 24.
\<close>

theorem csv_last_column_not_file_position:
  "map last (snd (export_all_gps_csv (parse_all data_abs))) = [IntCell 24]
   \<and> map fst (find_records data_abs) = [4]"
  by (simp add: export_all_gps_csv_def gps_all_data_abs csv_row_def point_abs_def
      find_records_data_abs)

section \<open>Tag dispatch\<close>

lemma hex_digit_eq_iff:
  assumes "d < 16" "e < 16"
  shows "hex_digit d = hex_digit e \<longleftrightarrow> d = e"
proof -
  have "distinct ''0123456789abcdef''" by simp
  moreover have "length ''0123456789abcdef'' = 16" by simp
  ultimately show ?thesis
    unfolding hex_digit_def using assms by (simp add: nth_eq_iff_index_eq)
qed

lemma hex_byte_eq_iff:
  fixes b c :: byte
  shows "[hex_digit (unat b div 16), hex_digit (unat b mod 16)]
           = [hex_digit (unat c div 16), hex_digit (unat c mod 16)] \<longleftrightarrow> b = c"
proof -
  have lt: "unat x div 16 < 16" "unat x mod 16 < 16" for x :: byte
    using unsigned_less [of x, where 'a = nat] by (simp_all add: less_mult_imp_div_less)
  have "unat b div 16 = unat c div 16 \<and> unat b mod 16 = unat c mod 16 \<longleftrightarrow> unat b = unat c"
    by (metis div_mult_mod_eq)
  then show ?thesis
    by (simp add: hex_digit_eq_iff lt word_unat_eq_iff)
qed

lemma hex_digits_of_tags:
  "hex [0x23 :: byte] = ''23''" "hex [0x27 :: byte] = ''27''" "hex [0x52 :: byte] = ''52''"
  by (simp_all add: hex_def hex_digit_def)

lemma tag_slice:
  assumes "4 \<le> length r"
  shows "py_slice r 1 (min 4 (length r)) = [r ! 1, r ! 2, r ! 3]"
    and "py_slice r 1 3 = [r ! 1, r ! 2]"
proof -
  have "py_slice r 1 4 = [r ! 1, r ! 2, r ! 3]"
  proof (rule nth_equalityI)
    show "length (py_slice r 1 4) = length [r ! 1, r ! 2, r ! 3]"
      using assms by (simp add: py_slice_def)
  next
    fix i
    assume "i < length (py_slice r 1 4)"
    then have "i < 3" by (simp add: py_slice_def)
    then consider "i = 0" | "i = 1" | "i = 2" by linarith
    then show "py_slice r 1 4 ! i = [r ! 1, r ! 2, r ! 3] ! i"
      using assms by cases (simp_all add: py_slice_def eval_nat_numeral)
  qed
  with assms show "py_slice r 1 (min 4 (length r)) = [r ! 1, r ! 2, r ! 3]" by simp
  show "py_slice r 1 3 = [r ! 1, r ! 2]"
  proof (rule nth_equalityI)
    show "length (py_slice r 1 3) = length [r ! 1, r ! 2]"
      using assms by (simp add: py_slice_def)
  next
    fix i
    assume "i < length (py_slice r 1 3)"
    then have "i < 2" by (simp add: py_slice_def)
    then consider "i = 0" | "i = 1" by linarith
    then show "py_slice r 1 3 ! i = [r ! 1, r ! 2] ! i"
      using assms by cases (simp_all add: py_slice_def eval_nat_numeral)
  qed
qed

lemma startswith_hex_tag:
  fixes a b c t u :: byte
  shows "startswith (hex [a, b, c]) (hex [t] @ hex [u]) \<longleftrightarrow> a = t \<and> b = u"
  using hex_byte_eq_iff [of a t] hex_byte_eq_iff [of b u]
  by (auto simp: startswith_def hex_def)

lemma known_tag_iff:
  assumes "4 \<le> length r"
  shows "startswith (hex (py_slice r 1 (min 4 (length r)))) ''2352'' \<longleftrightarrow> r ! 1 = 0x23 \<and> r ! 2 = 0x52"
    and "startswith (hex (py_slice r 1 (min 4 (length r)))) ''2752'' \<longleftrightarrow> r ! 1 = 0x27 \<and> r ! 2 = 0x52"
    and "py_slice r 1 3 = ks_tag \<longleftrightarrow> r ! 1 = 0x4B \<and> r ! 2 = 0x53"
proof -
  note sl = tag_slice [OF assms]
  show "startswith (hex (py_slice r 1 (min 4 (length r)))) ''2352'' \<longleftrightarrow> r ! 1 = 0x23 \<and> r ! 2 = 0x52"
    unfolding sl using startswith_hex_tag [of "r ! 1" "r ! 2" "r ! 3" "0x23" "0x52"]
    by (simp add: hex_digits_of_tags)
  show "startswith (hex (py_slice r 1 (min 4 (length r)))) ''2752'' \<longleftrightarrow> r ! 1 = 0x27 \<and> r ! 2 = 0x52"
    unfolding sl using startswith_hex_tag [of "r ! 1" "r ! 2" "r ! 3" "0x27" "0x52"]
    by (simp add: hex_digits_of_tags)
  show "py_slice r 1 3 = ks_tag \<longleftrightarrow> r ! 1 = 0x4B \<and> r ! 2 = 0x53"
    unfolding sl by (simp add: ks_tag_def)
qed


section \<open>Heuristic locator\<close>

lemma unpack_f_pair:
  assumes "k + 8 \<le> length r"
  shows "unpack_f (py_slice r k (k + 4)) = Some (f32_value (le_uint32_at r k))"
    and "unpack_f (py_slice r (k + 4) (k + 8)) = Some (f32_value (le_uint32_at r (k + 4)))"
proof -
  show "unpack_f (py_slice r k (k + 4)) = Some (f32_value (le_uint32_at r k))"
    using assms by (simp add: unpack_f_slice)
  have "k + 4 + 4 \<le> length r" using assms by simp
  from unpack_f_slice [OF this]
  show "unpack_f (py_slice r (k + 4) (k + 8)) = Some (f32_value (le_uint32_at r (k + 4)))"
    by (simp add: add.assoc)
qed


lemma phase2_step_unknown:
  assumes "4 \<le> length r"
    and "\<not> (r ! 1 = 0x23 \<and> r ! 2 = 0x52)" "\<not> (r ! 1 = 0x27 \<and> r ! 2 = 0x52)"
    and "\<not> (r ! 1 = 0x4B \<and> r ! 2 = 0x53)"
  shows "phase2_step s (pos, r) =
           (case find_gps_in_record s r of
              [] \<Rightarrow> s
            | best # rest \<Rightarrow>
                let p = discovered_point (hex (py_slice r 1 (min 4 (length r)))) best pos;
                    s3 = s\<lparr>gps_discovered := gps_discovered s @ [p],
                           gps_all := gps_all s @ [p],
                           coord_history :=
                             coord_history s @ [(cand_latitude best, cand_longitude best)]\<rparr>
                in if length (coord_history s3) mod 100 = 0 then update_region_center s3
                   else s3)"
proof -
  note tags = known_tag_iff [OF assms(1)]
  have t: "startswith (hex (py_slice r 1 (min 4 (length r)))) ''2352'' = False"
    "startswith (hex (py_slice r 1 (min 4 (length r)))) ''2752'' = False"
    "(py_slice r 1 3 = ks_tag) = False"
    using assms(2-4) unfolding tags by blast+
  have l: "(length r < 4) = False" using assms(1) by simp
  show ?thesis
    unfolding phase2_step_def Let_def fst_conv snd_conv t l
    by (simp split: list.splits)
qed



lemma rec_disc_tags:
  "4 \<le> length rec_disc"
  "\<not> (rec_disc ! 1 = 0x23 \<and> rec_disc ! 2 = 0x52)"
  "\<not> (rec_disc ! 1 = 0x27 \<and> rec_disc ! 2 = 0x52)"
  "\<not> (rec_disc ! 1 = 0x4B \<and> rec_disc ! 2 = 0x53)"
  by (simp_all add: rec_disc_def)

lemma rec_disc_fields:
  "length rec_disc = 13"
  "f32_value (le_uint32_at rec_disc 4) = Finite (223 / 4)"
  "f32_value (le_uint32_at rec_disc 8) = Finite 180"
  by (simp_all add: rec_disc_def le_uint32_at_def f32_value_def)

lemma valid_disc: "is_valid_coordinate (Some (Finite (223 / 4))) (Some (Finite 180))"
  by (simp add: is_valid_coordinate_def)


section \<open>Altitude interpolation\<close>

lemma parse_rec_zero: "parse_known_gps_absolute rec_zero = Some point_zero"
proof -
  have "length rec_zero = 36" "rec_zero ! Suc 0 = 0x23" "rec_zero ! 2 = 0x52"
    by (simp_all add: rec_zero_def)
  moreover have "unpack_I (py_slice rec_zero 4 8) = Some 2"
    "unpack_f (py_slice rec_zero 24 28) = Some (Finite (447 / 8))"
    "unpack_f (py_slice rec_zero 28 32) = Some (Finite (151 / 4))"
    "unpack_f (py_slice rec_zero 32 36) = Some (Finite 0)"
    "hex (py_slice rec_zero (Suc 0) 4) = ''235200''"
    by (simp_all add: py_slice_def rec_zero_def unpack_f_def f32_value_def hex_def hex_digit_def)
  ultimately show ?thesis
    by (simp add: parse_known_gps_absolute_def is_valid_coordinate_def point_zero_def)
qed


lemma find_records_two: "find_records (rec_abs @ rec_zero) = [(0, rec_abs), (36, rec_zero)]"
  by (simp add: find_records_def rec_abs_def rec_zero_def)


lemma known_record_steps:
  assumes "parse_known_gps_absolute r = Some g"
  shows "phase1_step s (pos, r) =
           s\<lparr>gps_known := gps_known s @ [KnownAbsolute g], gps_all := gps_all s @ [g],
             coord_history := coord_history s @ [(latitude g, longitude g)]\<rparr>"
    and "phase2_step s (pos, r) = s"
proof -
  from parse_known_gps_absolute_Some [OF assms]
  have r: "36 \<le> length r" "r ! 1 = 0x23" "r ! 2 = 0x52" by auto
  then have len: "4 \<le> length r" by simp
  from r len show "phase1_step s (pos, r) =
           s\<lparr>gps_known := gps_known s @ [KnownAbsolute g], gps_all := gps_all s @ [g],
             coord_history := coord_history s @ [(latitude g, longitude g)]\<rparr>"
    by (simp add: phase1_step_def assms)
  from r have "startswith (hex (py_slice r 1 (min 4 (length r)))) ''2352''"
    unfolding known_tag_iff [OF len] by simp
  with len show "phase2_step s (pos, r) = s"
    by (simp add: phase2_step_def Let_def)
qed

lemma gps_all_two: "gps_all (parse_all (rec_abs @ rec_zero)) = [point_abs, point_zero]"
  by (simp add: parse_all_def find_records_two parse_records_def
      known_record_steps [OF parse_rec_abs] known_record_steps [OF parse_rec_zero]
      init_session_def)


lemma short_trajectory_untrimmed: "length cs < 20 \<Longrightarrow> trim_start cs = 0"
  by (simp add: trim_start_def find_real_start_point_def)

lemma export_two_records:
  "written (export_trajectory_kml (parse_all (rec_abs @ rec_zero))) =
     Some \<lparr>point_count = 2,
           path = [(301 / 8, 223 / 4, Some (Finite 150)), (151 / 4, 447 / 8, Some (Finite 100))],
           start_marker = (301 / 8, 223 / 4, Some (Finite 150)),
           finish_marker = (151 / 4, 447 / 8, Some (Finite 100))\<rparr>"
proof -
  let ?raw = "[(301 / 8, 223 / 4, Some (Finite 150)), (151 / 4, 447 / 8, Some (Finite 0))]
                :: coord list"
  have raw: "raw_coords_of (parse_all (rec_abs @ rec_zero)) = ?raw"
    by (simp add: raw_coords_of_def gps_all_two point_abs_def point_zero_def)
  have "[0 ..< length ?raw] = [0, 1]" by (simp add: upt_rec)
  then have "interpolate_altitude ?raw =
      [(301 / 8, 223 / 4, Some (Finite 150)), (151 / 4, 447 / 8, Some (Finite 100))]"
    by (simp add: interpolate_altitude_def interpolate_point_def needs_altitude_def
        backward_range_def forward_range_def)
  then show ?thesis
    by (simp add: export_trajectory_kml_def raw short_trajectory_untrimmed)
qed

text \<open>
  C4 states that a point without a positive altitude takes the value of the nearest
  point with one, searched up to 20 positions back and forward. On the buffer of the two
  records above, the second point has altitude 0 and the first, one position before it,
  has altitude 150; the backward scan \<open>range(i-1, max(0, i-20), -1)\<close> stops before index 0,
  finds nothing, and the exported altitude of the second point is the default 100.
\<close>

theorem interpolate_misses_first_point:
  "raw_coords_of (parse_all (rec_abs @ rec_zero)) =
     [(301 / 8, 223 / 4, Some (Finite 150)), (151 / 4, 447 / 8, Some (Finite 0))]
   \<and> map alt_of (path (the (written (export_trajectory_kml (parse_all (rec_abs @ rec_zero))))))
       = [Some (Finite 150), Some (Finite 100)]"
  by (simp add: export_two_records alt_of_def raw_coords_of_def gps_all_two point_abs_def
      point_zero_def)

section \<open>Exported altitudes\<close>














section \<open>Framing of the long buffer\<close>

lemma find_records_from_record:
  assumes "0x7E \<notin> set body" and "rest = [] \<or> hd rest = 0x7E"
  shows "find_records_from i ((0x7E # body) @ rest) =
           (i, 0x7E # body) # find_records_from (i + length (0x7E # body)) rest"
proof -
  have nb: "\<forall>x \<in> set body. x \<noteq> 0x7E" using assms(1) by auto
  have tr: "takeWhile (\<lambda>c. c \<noteq> 0x7E) rest = []" "dropWhile (\<lambda>c. c \<noteq> 0x7E) rest = rest"
    using assms(2) by (cases rest; simp)+
  have "takeWhile (\<lambda>c. c \<noteq> 0x7E) (body @ rest) = body"
    using nb tr by (simp add: takeWhile_append2)
  moreover have "dropWhile (\<lambda>c. c \<noteq> 0x7E) (body @ rest) = rest"
    using nb tr by (simp add: dropWhile_append2)
  ultimately show ?thesis by simp
qed


lemma find_records_from_replicate:
  assumes "0x7E \<notin> set body" and "rest = [] \<or> hd rest = 0x7E"
  shows "find_records_from i (concat (replicate n (0x7E # body)) @ rest) =
           map (\<lambda>j. (i + length (0x7E # body) * j, 0x7E # body)) [0 ..< n]
             @ find_records_from (i + length (0x7E # body) * n) rest"
proof (induction n arbitrary: i)
  case 0
  show ?case by simp
next
  case (Suc n)
  let ?r = "0x7E # body"
  have hd: "concat (replicate n ?r) @ rest = [] \<or> hd (concat (replicate n ?r) @ rest) = 0x7E"
    using assms(2) by (cases n) simp_all
  have "find_records_from i (concat (replicate (Suc n) ?r) @ rest) =
          find_records_from i (?r @ (concat (replicate n ?r) @ rest))"
    by simp
  also have "\<dots> = (i, ?r) # find_records_from (i + length ?r) (concat (replicate n ?r) @ rest)"
    using find_records_from_record [OF assms(1) hd] .
  also have "\<dots> = (i, ?r) # map (\<lambda>j. (i + length ?r + length ?r * j, ?r)) [0 ..< n]
                      @ find_records_from (i + length ?r + length ?r * n) rest"
    using Suc.IH [of "i + length ?r"] by simp
  also have "map (\<lambda>j. (i + length ?r + length ?r * j, ?r)) [0 ..< n]
               = map (\<lambda>j. (i + length ?r * j, ?r)) [Suc 0 ..< Suc n]"
    by (simp add: map_Suc_upt [symmetric] del: upt_Suc length_Cons)
  also have "(i, ?r) # map (\<lambda>j. (i + length ?r * j, ?r)) [Suc 0 ..< Suc n]
                      @ find_records_from (i + length ?r + length ?r * n) rest
             = map (\<lambda>j. (i + length ?r * j, ?r)) [0 ..< Suc n]
                 @ find_records_from (i + length ?r * Suc n) rest"
    by (simp add: upt_conv_Cons add.assoc del: upt_Suc length_Cons)
  finally show ?case .
qed


lemma known_record_shapes:
  "rec_west = 0x7E # tl rec_west" "0x7E \<notin> set (tl rec_west)" "length rec_west = 36"
  "rec_east = 0x7E # tl rec_east" "0x7E \<notin> set (tl rec_east)" "length rec_east = 36"
  "hd rec_disc = 0x7E" "hd rec_east = 0x7E"
  by (simp_all add: rec_west_def rec_east_def rec_disc_def)

lemma hd_concat_replicate:
  "0 < n \<Longrightarrow> r \<noteq> [] \<Longrightarrow> hd (concat (replicate n r) @ rest) = hd r"
  by (cases n) simp_all

lemma find_records_from_rec_disc: "find_records_from i rec_disc = [(i, rec_disc)]"
  by (simp add: rec_disc_def)

lemma find_records_99_known: "find_records data_99_known = records_99_known"
proof -
  let ?tail = "concat (replicate 49 rec_east) @ rec_disc"
  have hd_tail: "?tail = [] \<or> hd ?tail = 0x7E"
    using hd_concat_replicate [of 49 rec_east rec_disc] known_record_shapes(8)
    by (simp add: rec_east_def)
  have w: "find_records_from 0 (concat (replicate 50 rec_west) @ ?tail) =
             map (\<lambda>j. (36 * j, rec_west)) [0 ..< 50] @ find_records_from 1800 ?tail"
    using find_records_from_replicate [OF known_record_shapes(2) hd_tail, of 0 50]
      known_record_shapes(1,3)
    by (simp del: upt_rec_numeral)
  have e: "find_records_from 1800 ?tail =
             map (\<lambda>j. (1800 + 36 * j, rec_east)) [0 ..< 49] @ find_records_from 3564 rec_disc"
    using find_records_from_replicate [OF known_record_shapes(5), of rec_disc 1800 49]
      known_record_shapes(4,6,7)
    by (simp del: upt_rec_numeral)
  have "[50 ..< 99] = map (\<lambda>i. i + 50) [0 ..< 49]"
    by (simp add: map_add_upt del: upt_rec_numeral)
  then have "map (\<lambda>i. (36 * i, rec_east)) [50 ..< 99]
               = map (\<lambda>j. (1800 + 36 * j, rec_east)) [0 ..< 49]"
    by (simp add: comp_def algebra_simps del: upt_rec_numeral)
  with w e show ?thesis
    by (simp add: find_records_def data_99_known_def records_99_known_def
        find_records_from_rec_disc del: upt_rec_numeral)
qed


section \<open>Runs of known records\<close>

lemma parse_rec_west: "parse_known_gps_absolute rec_west = Some point_west"
proof -
  have "length rec_west = 36" "rec_west ! Suc 0 = 0x23" "rec_west ! 2 = 0x52"
    by (simp_all add: rec_west_def)
  moreover have "unpack_I (py_slice rec_west 4 8) = Some 4"
    "unpack_f (py_slice rec_west 24 28) = Some (Finite (223 / 4))"
    "unpack_f (py_slice rec_west 28 32) = Some (Finite (- 180))"
    "unpack_f (py_slice rec_west 32 36) = Some (Finite 150)"
    "hex (py_slice rec_west (Suc 0) 4) = ''235200''"
    by (simp_all add: py_slice_def rec_west_def unpack_f_def f32_value_def hex_def hex_digit_def)
  ultimately show ?thesis
    by (simp add: parse_known_gps_absolute_def is_valid_coordinate_def point_west_def)
qed

lemma parse_rec_east: "parse_known_gps_absolute rec_east = Some point_east"
proof -
  have "length rec_east = 36" "rec_east ! Suc 0 = 0x23" "rec_east ! 2 = 0x52"
    by (simp_all add: rec_east_def)
  moreover have "unpack_I (py_slice rec_east 4 8) = Some 5"
    "unpack_f (py_slice rec_east 24 28) = Some (Finite (223 / 4))"
    "unpack_f (py_slice rec_east 28 32) = Some (Finite 180)"
    "unpack_f (py_slice rec_east 32 36) = Some (Finite 150)"
    "hex (py_slice rec_east (Suc 0) 4) = ''235200''"
    by (simp_all add: py_slice_def rec_east_def unpack_f_def f32_value_def hex_def hex_digit_def)
  ultimately show ?thesis
    by (simp add: parse_known_gps_absolute_def is_valid_coordinate_def point_east_def)
qed

lemma phase1_append: "phase1 s (xs @ ys) = phase1 (phase1 s xs) ys"
  by (induction xs arbitrary: s) simp_all

lemma phase2_append: "phase2 s (xs @ ys) = phase2 (phase2 s xs) ys"
  by (induction xs arbitrary: s) simp_all

lemma phase1_known_run:
  assumes "parse_known_gps_absolute r = Some g"
  shows "coord_history (phase1 s (map (\<lambda>i. (f i, r)) js))
           = coord_history s @ replicate (length js) (latitude g, longitude g)
         \<and> gps_discovered (phase1 s (map (\<lambda>i. (f i, r)) js)) = gps_discovered s
         \<and> region_center (phase1 s (map (\<lambda>i. (f i, r)) js)) = region_center s"
proof (induction js arbitrary: s)
  case Nil
  show ?case by simp
next
  case (Cons j js)
  show ?case
    using Cons [of "phase1_step s (f j, r)"]
    by (simp add: known_record_steps(1) [OF assms] replicate_app_Cons_same)
qed

lemma phase2_known_run:
  assumes "parse_known_gps_absolute r = Some g"
  shows "phase2 s (map (\<lambda>i. (f i, r)) js) = s"
  by (induction js) (simp_all add: known_record_steps(2) [OF assms])

lemma phase1_step_rec_disc: "phase1_step s (pos, rec_disc) = s"
  by (simp add: phase1_step_def rec_disc_def)

section \<open>The state after the first loop\<close>

lemma history_99_known:
  "coord_history (phase1 init_session records_99_known)
     = replicate 50 (223 / 4, - 180) @ replicate 49 (223 / 4, 180)"
  "gps_discovered (phase1 init_session records_99_known) = []"
  "region_center (phase1 init_session records_99_known) = None"
  using phase1_known_run [OF parse_rec_west, of init_session "\<lambda>i. 36 * i" "[0 ..< 50]"]
    phase1_known_run [OF parse_rec_east,
      of "phase1 init_session (map (\<lambda>i. (36 * i, rec_west)) [0 ..< 50])" "\<lambda>i. 36 * i"
         "[50 ..< 99]"]
  by (simp_all add: records_99_known_def phase1_append phase1_step_rec_disc point_west_def
      point_east_def init_session_def del: upt_rec_numeral)


section \<open>Refresh of the region estimate\<close>

lemma distance_antimeridian: "calculate_distance lat 180 lat (- 180) = 0"
  by (simp add: calculate_distance_def radians_def atan2_def)

lemma coherent_single_window:
  assumes "coord_history s \<noteq> []" and "set (last10 (coord_history s)) = {(hlat, hlon)}"
  shows "is_geographically_coherent s lat lon m \<longleftrightarrow> calculate_distance lat lon hlat hlon < m"
  using fold_py_min_PosInf [OF last10_nonempty [OF assms(1)],
      of "\<lambda>(hist_lat, hist_lon). calculate_distance lat lon hist_lat hist_lon"] assms
  by (simp add: is_geographically_coherent_def Let_def case_prod_unfold)

lemma median_of_two_runs:
  fixes a b :: real
  assumes "a \<le> b" "m \<le> k" "0 < k"
  shows "sort (replicate m a @ replicate k b) ! ((m + k) div 2) = b"
proof -
  have "sorted (replicate m a @ replicate k b)"
    using assms(1) by (auto simp: sorted_append)
  then have "sort (replicate m a @ replicate k b) = replicate m a @ replicate k b"
    by (rule sorted_sort_id)
  moreover have "m \<le> (m + k) div 2" "(m + k) div 2 - m < k" using assms(2,3) by linarith+
  ultimately show ?thesis by (simp add: nth_append)
qed

lemma median_of_two_runs_low:
  fixes a b :: real
  assumes "a \<le> b" "k < m"
  shows "sort (replicate m a @ replicate k b) ! ((m + k) div 2) = a"
proof -
  have "sorted (replicate m a @ replicate k b)"
    using assms(1) by (auto simp: sorted_append)
  then have "sort (replicate m a @ replicate k b) = replicate m a @ replicate k b"
    by (rule sorted_sort_id)
  moreover have "(m + k) div 2 < m" using assms(2) by linarith
  ultimately show ?thesis by (simp add: nth_append)
qed


lemma state_after_phase1_99:
  "coord_history (after_phase1 (phase1 init_session records_99_known))
     = replicate 50 (223 / 4, - 180) @ replicate 49 (223 / 4, 180)"
  "gps_discovered (after_phase1 (phase1 init_session records_99_known)) = []"
  "region_center (after_phase1 (phase1 init_session records_99_known)) = Some (223 / 4, - 180)"
proof -
  let ?s = "phase1 init_session records_99_known"
  show "coord_history (after_phase1 ?s)
     = replicate 50 (223 / 4, - 180) @ replicate 49 (223 / 4, 180)"
    and "gps_discovered (after_phase1 ?s) = []"
    by (simp_all add: history_99_known)
  have "sort (replicate 50 (223 / 4 :: real) @ replicate 49 (223 / 4)) ! 49 = 223 / 4"
    using median_of_two_runs_low [of "223 / 4 :: real" "223 / 4" 49 50] by simp
  moreover have "sort (replicate 50 (- 180 :: real) @ replicate 49 180) ! 49 = - 180"
    using median_of_two_runs_low [of "- 180 :: real" 180 49 50] by simp
  ultimately show "region_center (after_phase1 ?s) = Some (223 / 4, - 180)"
    by (simp add: after_phase1_def update_region_center_def history_99_known Let_def)
qed

lemma find_gps_rec_disc_99:
  assumes "coord_history s = replicate 50 (223 / 4, - 180) @ replicate 49 (223 / 4, 180)"
    and "region_center s = Some (223 / 4, - 180)"
  shows "find_gps_in_record s rec_disc =
           [\<lparr>cand_offset = 4, cand_latitude = 223 / 4, cand_longitude = 180,
             cand_altitude = None\<rparr>]"
proof -
  have ne: "coord_history s \<noteq> []" using assms(1) by simp
  have "last10 (coord_history s) = replicate 10 (223 / 4, 180)"
    by (simp add: last10_def assms(1))
  then have w: "set (last10 (coord_history s)) = {(223 / 4, 180)}" by simp
  have coh: "is_geographically_coherent s (223 / 4) 180 50"
    by (simp add: coherent_single_window [OF ne w] distance_same_point)
  have reg: "is_in_reasonable_region s (223 / 4) 180"
    by (simp add: is_in_reasonable_region_def assms(2) distance_antimeridian)
  have pass: "passes_filters s (Finite (223 / 4)) (Finite 180)"
    by (simp add: passes_filters_def valid_disc coh reg)
  have "13 = length rec_disc" by (simp add: rec_disc_fields)
  then have len: "4 + 8 \<le> length rec_disc" by simp
  have cand: "candidate_at s rec_disc 4 =
          Some \<lparr>cand_offset = 4, cand_latitude = 223 / 4, cand_longitude = 180,
                cand_altitude = None\<rparr>"
    using unpack_f_pair [OF len] pass
    by (simp add: candidate_at_def rec_disc_fields)
  have "[4 ..< min (length rec_disc - 8) 80] = [4]"
    by (simp add: rec_disc_fields upt_rec)
  then show ?thesis
    by (simp add: find_gps_in_record_def rec_disc_fields cand)
qed

lemma parse_99_known:
  "region_center (parse_all data_99_known) = Some (223 / 4, 180)"
  "length (gps_discovered (parse_all data_99_known)) = 1"
proof -
  let ?s2 = "after_phase1 (phase1 init_session records_99_known)"
  note st = state_after_phase1_99
  have "phase2 ?s2 records_99_known = phase2_step ?s2 (3564, rec_disc)"
    by (simp add: records_99_known_def phase2_append phase2_known_run [OF parse_rec_west]
        phase2_known_run [OF parse_rec_east] del: upt_rec_numeral)
  then have all: "parse_all data_99_known = phase2_step ?s2 (3564, rec_disc)"
    by (simp add: parse_all_def find_records_99_known parse_records_def)
  have lons: "sort (replicate 50 (- 180 :: real) @ replicate 50 180) ! 50 = 180"
    using median_of_two_runs [of "- 180 :: real" 180 50 50] by simp
  have lats: "sort (replicate 50 (223 / 4 :: real) @ replicate 50 (223 / 4)) ! 50 = 223 / 4"
    using median_of_two_runs [of "223 / 4 :: real" "223 / 4" 50 50] by simp
  have r49: "replicate 49 x @ [x] = replicate 50 x" for x :: real
    using replicate_append_same [of 49 x] by (simp add: replicate_Suc [symmetric] del: replicate_Suc)
  note step = phase2_step_unknown [OF rec_disc_tags, of ?s2 3564]
  show "region_center (parse_all data_99_known) = Some (223 / 4, 180)"
    unfolding all step find_gps_rec_disc_99 [OF st(1) st(3)]
    by (simp add: Let_def st history_99_known update_region_center_def r49 lons lats)
  show "length (gps_discovered (parse_all data_99_known)) = 1"
    unfolding all step find_gps_rec_disc_99 [OF st(1) st(3)]
    by (simp add: Let_def st history_99_known)
qed


lemma phase2_step_cases:
  "phase2_step s pr = s
   \<or> (\<exists>tel. phase2_step s pr = s\<lparr>telemetry := telemetry s @ [tel]\<rparr>)
   \<or> (\<exists>p lat lon.
         phase2_step s pr =
           (let s3 = s\<lparr>gps_discovered := gps_discovered s @ [p], gps_all := gps_all s @ [p],
                         coord_history := coord_history s @ [(lat, lon)]\<rparr>
            in if length (coord_history s3) mod 100 = 0 then update_region_center s3 else s3))"
proof -
  let ?r = "snd pr"
  let ?th = "hex (py_slice ?r 1 (min 4 (length ?r)))"
  consider (short) "length ?r < 4"
    | (known) "\<not> length ?r < 4" "startswith ?th ''2352'' \<or> startswith ?th ''2752''"
    | (ks) "\<not> length ?r < 4" "\<not> (startswith ?th ''2352'' \<or> startswith ?th ''2752'')"
        "py_slice ?r 1 3 = ks_tag"
    | (other) "\<not> length ?r < 4" "\<not> (startswith ?th ''2352'' \<or> startswith ?th ''2752'')"
        "py_slice ?r 1 3 \<noteq> ks_tag"
    by blast
  then show ?thesis
  proof cases
    case short
    then show ?thesis by (simp add: phase2_step_def)
  next
    case known
    then have "phase2_step s pr = s" unfolding phase2_step_def Let_def by simp
    then show ?thesis by simp
  next
    case ks
    then have "phase2_step s pr =
        (case parse_ks_telemetry ?r of None \<Rightarrow> s
         | Some tel \<Rightarrow> s\<lparr>telemetry := telemetry s @ [tel]\<rparr>)"
      unfolding phase2_step_def Let_def by simp
    then show ?thesis by (cases "parse_ks_telemetry ?r") auto
  next
    case other
    then have step: "phase2_step s pr =
        (case find_gps_in_record s ?r of [] \<Rightarrow> s
         | best # rest \<Rightarrow>
             let s1 = s\<lparr>gps_discovered :=
                         gps_discovered s @ [discovered_point ?th best (fst pr)]\<rparr>;
                 s2 = s1\<lparr>gps_all := gps_all s1 @ [last (gps_discovered s1)]\<rparr>;
                 s3 = s2\<lparr>coord_history :=
                           coord_history s2 @ [(cand_latitude best, cand_longitude best)]\<rparr>
             in if length (coord_history s3) mod 100 = 0 then update_region_center s3
                else s3)"
      unfolding phase2_step_def Let_def by simp
    show ?thesis
    proof (cases "find_gps_in_record s ?r")
      case Nil
      with step show ?thesis by simp
    next
      case (Cons best rest)
      with step have "phase2_step s pr =
           (let s3 = s\<lparr>gps_discovered := gps_discovered s @ [discovered_point ?th best (fst pr)],
                         gps_all := gps_all s @ [discovered_point ?th best (fst pr)],
                         coord_history :=
                           coord_history s @ [(cand_latitude best, cand_longitude best)]\<rparr>
            in if length (coord_history s3) mod 100 = 0 then update_region_center s3 else s3)"
        by (simp add: Let_def)
      then show ?thesis by blast
    qed
  qed
qed

lemma update_region_center_value:
  "coord_history s \<noteq> [] \<Longrightarrow>
     region_center (update_region_center s) =
       Some (sort (map fst (coord_history s)) ! (length (coord_history s) div 2),
             sort (map snd (coord_history s)) ! (length (coord_history s) div 2))"
  by (simp add: update_region_center_def Let_def)

lemma discovered_step_fields:
  assumes "s' = (let s3 = s\<lparr>gps_discovered := gps_discovered s @ [p], gps_all := gps_all s @ [p],
                              coord_history := coord_history s @ [(lat, lon)]\<rparr>
                 in if length (coord_history s3) mod 100 = 0 then update_region_center s3
                    else s3)"
  shows "gps_discovered s' = gps_discovered s @ [p]"
    and "gps_all s' = gps_all s @ [p]"
    and "coord_history s' = coord_history s @ [(lat, lon)]"
    and "region_center s' =
           (if length (coord_history s') mod 100 = 0
            then Some (sort (map fst (coord_history s')) ! (length (coord_history s') div 2),
                       sort (map snd (coord_history s')) ! (length (coord_history s') div 2))
            else region_center s)"
  unfolding assms by (simp_all add: Let_def update_region_center_value)

lemma phase2_step_fields:
  "(gps_discovered (phase2_step s pr) = gps_discovered s
      \<and> gps_all (phase2_step s pr) = gps_all s
      \<and> coord_history (phase2_step s pr) = coord_history s
      \<and> region_center (phase2_step s pr) = region_center s)
   \<or> (\<exists>p lat lon.
         gps_discovered (phase2_step s pr) = gps_discovered s @ [p]
         \<and> gps_all (phase2_step s pr) = gps_all s @ [p]
         \<and> coord_history (phase2_step s pr) = coord_history s @ [(lat, lon)]
         \<and> region_center (phase2_step s pr) =
             (if length (coord_history (phase2_step s pr)) mod 100 = 0
              then Some (sort (map fst (coord_history (phase2_step s pr)))
                           ! (length (coord_history (phase2_step s pr)) div 2),
                         sort (map snd (coord_history (phase2_step s pr)))
                           ! (length (coord_history (phase2_step s pr)) div 2))
              else region_center s))"
proof -
  consider (same) "phase2_step s pr = s"
    | (tel) tel where "phase2_step s pr = s\<lparr>telemetry := telemetry s @ [tel]\<rparr>"
    | (disc) p lat lon where "phase2_step s pr =
         (let s3 = s\<lparr>gps_discovered := gps_discovered s @ [p], gps_all := gps_all s @ [p],
                       coord_history := coord_history s @ [(lat, lon)]\<rparr>
          in if length (coord_history s3) mod 100 = 0 then update_region_center s3 else s3)"
    using phase2_step_cases [of s pr] by blast
  then show ?thesis
  proof cases
    case same
    then show ?thesis by simp
  next
    case tel
    then show ?thesis by simp
  next
    case disc
    from discovered_step_fields [OF disc] show ?thesis by blast
  qed
qed

lemma phase1_step_region [simp]: "region_center (phase1_step s pr) = region_center s"
  by (simp add: phase1_step_def Let_def split: option.splits)

lemma phase1_region [simp]: "region_center (phase1 s records) = region_center s"
  by (induction records arbitrary: s) simp_all

lemma phase1_step_lengths:
  "length (coord_history s) = length (gps_all s) \<Longrightarrow>
     length (coord_history (phase1_step s pr)) = length (gps_all (phase1_step s pr))"
  by (simp add: phase1_step_def Let_def split: option.splits)

lemma phase2_step_lengths:
  "length (coord_history s) = length (gps_all s) \<Longrightarrow>
     length (coord_history (phase2_step s pr)) = length (gps_all (phase2_step s pr))"
  using phase2_step_fields [of s pr] by auto

lemma phase1_lengths:
  "length (coord_history s) = length (gps_all s) \<Longrightarrow>
     length (coord_history (phase1 s records)) = length (gps_all (phase1 s records))"
  by (induction records arbitrary: s) (simp_all add: phase1_step_lengths)

lemma phase2_lengths:
  "length (coord_history s) = length (gps_all s) \<Longrightarrow>
     length (coord_history (phase2 s records)) = length (gps_all (phase2 s records))"
  by (induction records arbitrary: s) (simp_all add: phase2_step_lengths)

text \<open>
  C1 (as amended). The statement between the two loops recomputes the region estimate
  once, exactly when the history is not empty; the first loop never changes it. In the
  second loop an iteration that discovers no point leaves the estimate and the history
  as they are. An iteration that discovers a point appends one entry to the history and
  recomputes the estimate exactly when the new length of the whole history is a multiple
  of 100. The history has one entry per sample of \<open>gps_all\<close>, known-absolute and
  discovered alike, so the count that triggers a refresh includes the known-GPS points.
\<close>

theorem region_refresh_schedule:
  "(coord_history s \<noteq> [] \<longrightarrow>
      region_center (after_phase1 s) =
        Some (sort (map fst (coord_history s)) ! (length (coord_history s) div 2),
              sort (map snd (coord_history s)) ! (length (coord_history s) div 2)))
   \<and> (coord_history s = [] \<longrightarrow> region_center (after_phase1 s) = region_center s)
   \<and> region_center (phase1 s records) = region_center s
   \<and> (gps_discovered (phase2_step s pr) = gps_discovered s \<longrightarrow>
        region_center (phase2_step s pr) = region_center s
        \<and> coord_history (phase2_step s pr) = coord_history s)
   \<and> (gps_discovered (phase2_step s pr) \<noteq> gps_discovered s \<longrightarrow>
        length (gps_discovered (phase2_step s pr)) = length (gps_discovered s) + 1
        \<and> length (coord_history (phase2_step s pr)) = length (coord_history s) + 1
        \<and> (length (coord_history (phase2_step s pr)) mod 100 = 0 \<longrightarrow>
             region_center (phase2_step s pr) =
               Some (sort (map fst (coord_history (phase2_step s pr)))
                       ! (length (coord_history (phase2_step s pr)) div 2),
                     sort (map snd (coord_history (phase2_step s pr)))
                       ! (length (coord_history (phase2_step s pr)) div 2)))
        \<and> (length (coord_history (phase2_step s pr)) mod 100 \<noteq> 0 \<longrightarrow>
             region_center (phase2_step s pr) = region_center s))
   \<and> length (coord_history (parse_records init_session records))
       = length (gps_all (parse_records init_session records))"
proof -
  have a: "coord_history s \<noteq> [] \<longrightarrow>
      region_center (after_phase1 s) =
        Some (sort (map fst (coord_history s)) ! (length (coord_history s) div 2),
              sort (map snd (coord_history s)) ! (length (coord_history s) div 2))"
    by (simp add: after_phase1_def update_region_center_value)
  have b: "coord_history s = [] \<longrightarrow> region_center (after_phase1 s) = region_center s"
    by (simp add: after_phase1_def)
  have c: "gps_discovered (phase2_step s pr) = gps_discovered s \<longrightarrow>
        region_center (phase2_step s pr) = region_center s
        \<and> coord_history (phase2_step s pr) = coord_history s"
    using phase2_step_fields [of s pr] by auto
  have d: "gps_discovered (phase2_step s pr) \<noteq> gps_discovered s \<longrightarrow>
        length (gps_discovered (phase2_step s pr)) = length (gps_discovered s) + 1
        \<and> length (coord_history (phase2_step s pr)) = length (coord_history s) + 1
        \<and> (length (coord_history (phase2_step s pr)) mod 100 = 0 \<longrightarrow>
             region_center (phase2_step s pr) =
               Some (sort (map fst (coord_history (phase2_step s pr)))
                       ! (length (coord_history (phase2_step s pr)) div 2),
                     sort (map snd (coord_history (phase2_step s pr)))
                       ! (length (coord_history (phase2_step s pr)) div 2)))
        \<and> (length (coord_history (phase2_step s pr)) mod 100 \<noteq> 0 \<longrightarrow>
             region_center (phase2_step s pr) = region_center s)"
    using phase2_step_fields [of s pr] by (auto split: if_splits)
  have e: "length (coord_history (parse_records init_session records))
       = length (gps_all (parse_records init_session records))"
    unfolding parse_records_def
    by (intro phase2_lengths) (simp add: phase1_lengths init_session_def)
  from a b c d e show ?thesis by simp
qed


lemma step_rec_disc_init:
  "gps_discovered (phase2_step init_session (pos, rec_disc)) \<noteq> gps_discovered init_session"
  "length (coord_history (phase2_step init_session (pos, rec_disc))) = 1"
proof -
  have pass: "passes_filters init_session (Finite (223 / 4)) (Finite 180)"
    by (simp add: passes_filters_def valid_disc is_geographically_coherent_def init_session_def)
  have "13 = length rec_disc" by (simp add: rec_disc_fields)
  then have len: "4 + 8 \<le> length rec_disc" by simp
  have cand: "candidate_at init_session rec_disc 4 =
          Some \<lparr>cand_offset = 4, cand_latitude = 223 / 4, cand_longitude = 180,
                cand_altitude = None\<rparr>"
    using unpack_f_pair [OF len] pass
    by (simp add: candidate_at_def rec_disc_fields)
  have "[4 ..< min (length rec_disc - 8) 80] = [4]"
    by (simp add: rec_disc_fields upt_rec)
  then have f: "find_gps_in_record init_session rec_disc =
           [\<lparr>cand_offset = 4, cand_latitude = 223 / 4, cand_longitude = 180,
             cand_altitude = None\<rparr>]"
    by (simp add: find_gps_in_record_def rec_disc_fields cand)
  note step = phase2_step_unknown [OF rec_disc_tags, of init_session pos]
  show "gps_discovered (phase2_step init_session (pos, rec_disc)) \<noteq> gps_discovered init_session"
    unfolding step f by (simp add: Let_def init_session_def)
  show "length (coord_history (phase2_step init_session (pos, rec_disc))) = 1"
    unfolding step f by (simp add: Let_def init_session_def)
qed

lemma step_rec_disc_99:
  "gps_discovered (phase2_step (after_phase1 (phase1 init_session records_99_known))
      (3564, rec_disc)) \<noteq> gps_discovered (after_phase1 (phase1 init_session records_99_known))"
  "coord_history (phase2_step (after_phase1 (phase1 init_session records_99_known))
      (3564, rec_disc)) = replicate 50 (223 / 4, - 180) @ replicate 50 (223 / 4, 180)"
proof -
  let ?s2 = "after_phase1 (phase1 init_session records_99_known)"
  note st = state_after_phase1_99
  note step = phase2_step_unknown [OF rec_disc_tags, of ?s2 3564]
  have r49: "replicate 49 x @ [x] = replicate 50 x" for x :: "real \<times> real"
    using replicate_append_same [of 49 x] by (simp add: replicate_Suc [symmetric] del: replicate_Suc)
  show "gps_discovered (phase2_step ?s2 (3564, rec_disc)) \<noteq> gps_discovered ?s2"
    unfolding step find_gps_rec_disc_99 [OF st(1) st(3)]
    by (simp add: Let_def st history_99_known)
  show "coord_history (phase2_step ?s2 (3564, rec_disc))
          = replicate 50 (223 / 4, - 180) @ replicate 50 (223 / 4, 180)"
    unfolding step find_gps_rec_disc_99 [OF st(1) st(3)]
    by (simp add: Let_def st history_99_known r49)
qed

theorem region_refresh_schedule_witness:
  "coord_history (phase1 init_session records_99_known) \<noteq> []
   \<and> region_center (after_phase1 (phase1 init_session records_99_known)) = Some (223 / 4, - 180)
   \<and> coord_history init_session = []
   \<and> region_center (after_phase1 init_session) = None
   \<and> gps_discovered (phase2_step init_session (0, rec_abs)) = gps_discovered init_session
   \<and> region_center (phase2_step init_session (0, rec_abs)) = None
   \<and> gps_discovered (phase2_step init_session (100, rec_disc)) \<noteq> gps_discovered init_session
   \<and> length (coord_history (phase2_step init_session (100, rec_disc))) mod 100 \<noteq> 0
   \<and> region_center (phase2_step init_session (100, rec_disc)) = None
   \<and> gps_discovered (phase2_step (after_phase1 (phase1 init_session records_99_known))
        (3564, rec_disc)) \<noteq> gps_discovered (after_phase1 (phase1 init_session records_99_known))
   \<and> length (coord_history (phase2_step (after_phase1 (phase1 init_session records_99_known))
        (3564, rec_disc))) mod 100 = 0
   \<and> region_center (phase2_step (after_phase1 (phase1 init_session records_99_known))
        (3564, rec_disc)) = Some (223 / 4, 180)"
proof -
  let ?s1 = "phase1 init_session records_99_known"
  let ?s2 = "after_phase1 ?s1"
  have lons49: "sort (replicate 50 (- 180 :: real) @ replicate 49 180) ! 49 = - 180"
    using median_of_two_runs_low [of "- 180 :: real" 180 49 50] by simp
  have lats49: "sort (replicate 50 (223 / 4 :: real) @ replicate 49 (223 / 4)) ! 49 = 223 / 4"
    using median_of_two_runs_low [of "223 / 4 :: real" "223 / 4" 49 50] by simp
  have lons: "sort (replicate 50 (- 180 :: real) @ replicate 50 180) ! 50 = 180"
    using median_of_two_runs [of "- 180 :: real" 180 50 50] by simp
  have lats: "sort (replicate 50 (223 / 4 :: real) @ replicate 50 (223 / 4)) ! 50 = 223 / 4"
    using median_of_two_runs [of "223 / 4 :: real" "223 / 4" 50 50] by simp
  have a: "coord_history ?s1 \<noteq> [] \<and> region_center ?s2 = Some (223 / 4, - 180)"
    using region_refresh_schedule [of ?s1 "[]" "(0, rec_abs)"]
    by (simp add: history_99_known lons49 lats49)
  have b: "coord_history init_session = [] \<and> region_center (after_phase1 init_session) = None
      \<and> gps_discovered (phase2_step init_session (0, rec_abs)) = gps_discovered init_session
      \<and> region_center (phase2_step init_session (0, rec_abs)) = None"
    using region_refresh_schedule [of init_session "[]" "(0, rec_abs)"]
    by (simp add: known_record_steps(2) [OF parse_rec_abs]) (simp add: init_session_def)
  have c: "gps_discovered (phase2_step init_session (100, rec_disc)) \<noteq> gps_discovered init_session
      \<and> length (coord_history (phase2_step init_session (100, rec_disc))) mod 100 \<noteq> 0
      \<and> region_center (phase2_step init_session (100, rec_disc)) = None"
    using region_refresh_schedule [of init_session "[]" "(100, rec_disc)"]
      step_rec_disc_init [of 100]
    by (simp add: init_session_def)
  have d: "gps_discovered (phase2_step ?s2 (3564, rec_disc)) \<noteq> gps_discovered ?s2
      \<and> length (coord_history (phase2_step ?s2 (3564, rec_disc))) mod 100 = 0
      \<and> region_center (phase2_step ?s2 (3564, rec_disc)) = Some (223 / 4, 180)"
    using region_refresh_schedule [of ?s2 "[]" "(3564, rec_disc)"] step_rec_disc_99
    by (simp add: lons lats)
  from a b c d show ?thesis by blast
qed

text \<open>
  C1 as stated fails: in the buffer of 99 absolute-GPS records followed by one unknown
  record, the estimate computed after the first loop is (55.75, -180); the single
  discovered point brings the history to 100 entries and the estimate is recomputed to
  (55.75, 180), after one discovered point and not after 100.
\<close>

theorem region_refreshed_after_one_discovered:
  "region_center (after_phase1 (phase1 init_session (find_records data_99_known)))
     = Some (223 / 4, - 180)
   \<and> gps_discovered (after_phase1 (phase1 init_session (find_records data_99_known))) = []
   \<and> region_center (parse_all data_99_known) = Some (223 / 4, 180)
   \<and> length (gps_discovered (parse_all data_99_known)) = 1"
  by (simp add: find_records_99_known state_after_phase1_99 parse_99_known history_99_known)

section \<open>The haversine term on valid latitudes\<close>

lemma cos_radians_nonneg:
  assumes "- 90 \<le> lat" "lat \<le> 90"
  shows "0 \<le> cos (radians lat)"
proof (rule cos_ge_zero)
  have "- 90 * pi \<le> lat * pi" "lat * pi \<le> 90 * pi"
    using assms mult_right_mono [of "- 90" lat pi] mult_right_mono [of lat 90 pi]
    by simp_all
  then show "- (pi / 2) \<le> radians lat" "radians lat \<le> pi / 2"
    by (simp_all add: radians_def)
qed

lemma haversine_term_bounds:
  fixes lat1 lon1 lat2 lon2 :: real
  assumes "- 90 \<le> lat1" "lat1 \<le> 90" "- 90 \<le> lat2" "lat2 \<le> 90"
  defines "a \<equiv> (sin (radians (lat2 - lat1) / 2)) ^ 2
                 + cos (radians lat1) * cos (radians lat2) * (sin (radians (lon2 - lon1) / 2)) ^ 2"
  shows "0 \<le> a \<and> a \<le> 1"
proof -
  let ?p = "radians lat1" and ?q = "radians lat2"
  have c: "0 \<le> cos ?p * cos ?q"
    using cos_radians_nonneg assms(1-4) by simp
  have split: "radians (lat2 - lat1) / 2 = (?q - ?p) / 2"
    by (simp add: radians_def algebra_simps diff_divide_distrib)
  have s1: "(sin (radians (lon2 - lon1) / 2)) ^ 2 \<le> 1"
    by (simp add: sin_squared_eq)
  have s0: "0 \<le> (sin (radians (lon2 - lon1) / 2)) ^ 2" by simp
  have "(sin (x / 2)) ^ 2 = (1 - cos x) / 2" for x :: real
    using cos_double_sin [of "x / 2"] by simp
  then have half: "(sin ((?q - ?p) / 2)) ^ 2 = (1 - cos (?q - ?p)) / 2" .
  have "a \<le> (sin ((?q - ?p) / 2)) ^ 2 + cos ?p * cos ?q"
    unfolding a_def split using mult_left_le [OF s1 c] by simp
  also have "\<dots> = (1 + cos (?p + ?q)) / 2"
    unfolding half by (simp add: cos_diff cos_add field_simps)
  also have "\<dots> \<le> 1" using cos_le_one [of "?p + ?q"] by simp
  finally have "a \<le> 1" .
  moreover have "0 \<le> a"
    unfolding a_def using c s0 by (simp add: mult_nonneg_nonneg)
  ultimately show ?thesis by simp
qed

end
